theory Spec2Isabelle
  imports Main "HOL-Library.Sublist"
begin

section \<open>Bytes, buffers and bounds-checked memory access\<close>

text \<open>
  The two programs of the repository, \<^verbatim>\<open>ichi-sign.c\<close> and \<^verbatim>\<open>kurv.c\<close>, work on
  \<^verbatim>\<open>uint8_t\<close> buffers. A byte is modelled by \<^typ>\<open>char\<close>, which is exactly an
  8-bit value in HOL, so that the armor markers are string literals; a buffer is a
  list of bytes and its size is the length of the list.
\<close>

type_synonym byte = char
type_synonym bytes = "char list"

definition NL :: byte where
  "NL = CHR 0x0A"

definition NUL :: byte where
  "NUL = CHR 0x00"

text \<open>
  What a C function does is either to return a value or, when it reads outside a
  buffer or dereferences a null pointer, to have undefined behaviour.
\<close>

datatype 'a outcome = Returns 'a | Undefined

text \<open>Reading \<open>n\<close> bytes at offset \<open>off\<close> of a buffer; \<open>None\<close> is an out-of-bounds read.\<close>

definition mem_read :: "bytes \<Rightarrow> nat \<Rightarrow> nat \<Rightarrow> bytes option" where
  "mem_read buf off n = (if off + n \<le> length buf then Some (take n (drop off buf)) else None)"

text \<open>
  \<^verbatim>\<open>memcmp(buf + off, lit, n)\<close>: 0 when the \<open>n\<close> bytes are equal. The sources only test
  the result against 0, so every non-zero result is modelled by 1.
\<close>

definition memcmp :: "bytes \<Rightarrow> nat \<Rightarrow> bytes \<Rightarrow> nat \<Rightarrow> int option" where
  "memcmp buf off lit n =
     (case mem_read buf off n of
        None \<Rightarrow> None
      | Some bs \<Rightarrow> (case mem_read lit 0 n of
                     None \<Rightarrow> None
                   | Some ls \<Rightarrow> Some (if bs = ls then 0 else 1)))"

text \<open>\<^verbatim>\<open>crypto_wipe(buf, n)\<close> of monocypher: the first \<open>n\<close> bytes become zero.\<close>

definition crypto_wipe :: "bytes \<Rightarrow> nat \<Rightarrow> bytes" where
  "crypto_wipe buf n = replicate (min n (length buf)) NUL @ drop n buf"

section \<open>The external capabilities: text codec and signature primitive\<close>

text \<open>
  \<^verbatim>\<open>base64/base64.h\<close> declares the codec and \<^verbatim>\<open>monocypher/monocypher.h\<close> the signature
  primitive; both are libraries outside the sources, so the programs are modelled
  over any codec and any primitive. A function taking \<^verbatim>\<open>(input, input_size)\<close> is
  applied to the list of the first \<^verbatim>\<open>input_size\<close> bytes of the input, and a function
  filling an output array returns what it writes there.
\<close>

record codec =
  b64_encode :: "bytes \<Rightarrow> bytes"
  b64_decode :: "bytes \<Rightarrow> bytes"
  b64_validate :: "bytes \<Rightarrow> int"
  b64_decoded_size :: "bytes \<Rightarrow> nat"

record crypto =
  crypto_sign_public_key :: "bytes \<Rightarrow> bytes"
  crypto_sign :: "bytes \<Rightarrow> bytes \<Rightarrow> bytes \<Rightarrow> bytes"
  crypto_check :: "bytes \<Rightarrow> bytes \<Rightarrow> bytes \<Rightarrow> int"

definition B64_KEY_SIZE :: nat where
  "B64_KEY_SIZE = 44"

definition B64_SIG_SIZE :: nat where
  "B64_SIG_SIZE = 88"

section \<open>The armor markers\<close>

definition SIG_ARMOR_TOP :: bytes where
  "SIG_ARMOR_TOP = NL # ''----BEGIN ICHI SIGNATURE----'' @ [NL]"

definition SIG_ARMOR_END :: bytes where
  "SIG_ARMOR_END = NL # ''---- END ICHI SIGNATURE ----'' @ [NL]"

definition SIG_START :: bytes where
  "SIG_START = NL # ''----BEGIN KURV SIGNATURE----'' @ [NL]"

definition SIG_END :: bytes where
  "SIG_END = NL # ''----END KURV SIGNATURE----'' @ [NL]"

definition SIG_START_LEN :: nat where
  "SIG_START_LEN = length SIG_START"

definition SIG_END_LEN :: nat where
  "SIG_END_LEN = length SIG_END"

section \<open>Finding the joined signature at the end of a buffer\<close>

subsection \<open>ichi-sign: \<^verbatim>\<open>sig_from_buf\<close>\<close>

definition TOP_SZ :: nat where
  "TOP_SZ = length SIG_ARMOR_TOP"

definition SIG_SZ :: nat where
  "SIG_SZ = B64_SIG_SIZE + 1"

definition END_SZ :: nat where
  "END_SZ = length SIG_ARMOR_END"

definition TOTAL_SZ :: nat where
  "TOTAL_SZ = TOP_SZ + SIG_SZ + END_SZ"

text \<open>
  \<^verbatim>\<open>sig_from_buf(sig, &new_buf_size, buf, buf_size)\<close>. \<open>Returns None\<close> is the return
  value \<open>-1\<close>, which leaves \<^verbatim>\<open>sig\<close> and \<^verbatim>\<open>new_buf_size\<close> as they were;
  \<open>Returns (Some (sig, new_buf_size))\<close> is the return value 0 with the two results
  stored. The disjuncts of the first test are evaluated in the order of the source,
  each only when the ones before it are false.
\<close>

definition sig_from_buf :: "codec \<Rightarrow> bytes \<Rightarrow> (bytes \<times> nat) option outcome" where
  "sig_from_buf cdc buf =
     (let buf_size = length buf in
      if buf_size < TOTAL_SZ then Returns None
      else
        let TOP_PTR = buf_size - TOTAL_SZ;
            SIG_PTR = TOP_PTR + TOP_SZ;
            END_PTR = SIG_PTR + SIG_SZ
        in (case memcmp buf TOP_PTR SIG_ARMOR_TOP TOP_SZ of
              None \<Rightarrow> Undefined
            | Some c1 \<Rightarrow>
                if c1 \<noteq> 0 then Returns None
                else (case memcmp buf END_PTR SIG_ARMOR_END END_SZ of
                  None \<Rightarrow> Undefined
                | Some c2 \<Rightarrow>
                    if c2 \<noteq> 0 then Returns None
                    else (case mem_read buf (SIG_PTR + 44) 1 of
                      None \<Rightarrow> Undefined
                    | Some sep \<Rightarrow>
                        if sep \<noteq> [NL] then Returns None
                        else (case mem_read buf SIG_PTR 44 of
                          None \<Rightarrow> Undefined
                        | Some half1 \<Rightarrow>
                            (case mem_read buf (SIG_PTR + 45) 44 of
                               None \<Rightarrow> Undefined
                             | Some half2 \<Rightarrow>
                                 let b64_sig = half1 @ half2 in
                                 if b64_validate cdc (take B64_SIG_SIZE b64_sig) \<noteq> 0
                                    \<or> b64_decoded_size cdc (take B64_SIG_SIZE b64_sig) \<noteq> 64
                                 then Returns None
                                 else Returns (Some (b64_decode cdc (take B64_SIG_SIZE b64_sig),
                                                     buf_size - TOTAL_SZ))))))))"

subsection \<open>kurv: \<^verbatim>\<open>decode_exactly\<close> and \<^verbatim>\<open>find_signature\<close>\<close>

text \<open>
  \<^verbatim>\<open>decode_exactly(buf, bufsize, b64, b64size)\<close>: \<open>None\<close> is the return value \<open>-1\<close>
  (nothing written to \<^verbatim>\<open>buf\<close>), \<open>Some\<close> the return value 0 with the decoded bytes.
\<close>

definition decode_exactly :: "codec \<Rightarrow> nat \<Rightarrow> bytes \<Rightarrow> nat \<Rightarrow> bytes option" where
  "decode_exactly cdc bufsize b64 b64size =
     (if b64_validate cdc (take b64size b64) \<noteq> 0
         \<or> b64_decoded_size cdc (take b64size b64) \<noteq> bufsize
      then None
      else Some (b64_decode cdc (take b64size b64)))"

definition find_signature :: "codec \<Rightarrow> bytes \<Rightarrow> (bytes \<times> nat) option outcome" where
  "find_signature cdc buf =
     (let start_size = SIG_START_LEN;
          sig_size = B64_SIG_SIZE;
          end_size = SIG_END_LEN;
          total = start_size + sig_size + end_size;
          size = length buf
      in if size < total then Returns None
         else (case memcmp buf (size - end_size) SIG_END end_size of
           None \<Rightarrow> Undefined
         | Some c1 \<Rightarrow>
             if c1 \<noteq> 0 then Returns None
             else (case memcmp buf (size - total) SIG_START start_size of
               None \<Rightarrow> Undefined
             | Some c2 \<Rightarrow>
                 if c2 \<noteq> 0 then Returns None
                 else (case mem_read buf (size - sig_size - end_size) sig_size of
                   None \<Rightarrow> Undefined
                 | Some b64_sig \<Rightarrow>
                     (case decode_exactly cdc 64 b64_sig B64_SIG_SIZE of
                        None \<Rightarrow> Returns None
                      | Some signature \<Rightarrow> Returns (Some (signature, size - total)))))))"

section \<open>Streams and the system\<close>

text \<open>
  A \<^verbatim>\<open>FILE\<close> opened for reading is the bytes not yet read and its two indicators;
  \<open>faulty\<close> is the device: on a faulty stream every \<^verbatim>\<open>fread\<close> reads nothing and
  sets the error indicator. \<^verbatim>\<open>fread(buf, 1, n, fp)\<close> returns the bytes it stored and
  sets the end-of-file indicator when fewer than \<open>n\<close> bytes were left.
\<close>

record istream =
  pending :: bytes
  eof_ind :: bool
  err_ind :: bool
  faulty :: bool

definition fread :: "istream \<Rightarrow> nat \<Rightarrow> bytes \<times> istream" where
  "fread fp n =
     (if faulty fp then ([], fp\<lparr>err_ind := True\<rparr>)
      else (take n (pending fp),
            fp\<lparr>pending := drop n (pending fp),
               eof_ind := (eof_ind fp \<or> length (pending fp) < n)\<rparr>))"

definition feof :: "istream \<Rightarrow> bool" where
  "feof fp = eof_ind fp"

definition ferror :: "istream \<Rightarrow> bool" where
  "ferror fp = err_ind fp"

text \<open>
  A \<^verbatim>\<open>FILE\<close> opened for writing is the bytes written so far; on a faulty one
  \<^verbatim>\<open>fwrite\<close> writes nothing. \<^verbatim>\<open>fwrite(buf, 1, n, fp)\<close> returns the number of bytes
  written.
\<close>

record ostream =
  written :: bytes
  wfaulty :: bool

definition fwrite :: "ostream \<Rightarrow> bytes \<Rightarrow> nat \<Rightarrow> nat \<times> ostream" where
  "fwrite fp buf n =
     (if wfaulty fp then (0, fp)
      else (n, fp\<lparr>written := written fp @ take n buf\<rparr>))"

text \<open>
  What \<^verbatim>\<open>openat\<close> and \<^verbatim>\<open>read\<close> do with a name of an open directory: the name
  cannot be opened, it opens and cannot be read (a subdirectory), or it is a file.
\<close>

datatype inode = Absent | Unreadable | File bytes

record DIR =
  dd_fd :: int
  entries :: "string list"
  files :: "string \<Rightarrow> inode"

text \<open>
  The system a program runs in: whether an allocation of a given size succeeds, the
  environment variables, the directories that open and the files that open.
\<close>

record sys =
  malloc_ok :: "nat \<Rightarrow> bool"
  getenv :: "string \<Rightarrow> string option"
  opendir :: "string \<Rightarrow> DIR option"
  fopen :: "string \<Rightarrow> istream option"

text \<open>
  \<^verbatim>\<open>dirfd(dir)\<close> reads the descriptor out of the stream \<^verbatim>\<open>dir\<close> points to; on the
  null pointer that \<^verbatim>\<open>opendir\<close> returns on failure it dereferences null.
\<close>

definition dirfd :: "DIR option \<Rightarrow> int outcome" where
  "dirfd dir = (case dir of None \<Rightarrow> Undefined | Some d \<Rightarrow> Returns (dd_fd d))"

text \<open>
  The bytes a process has written to its output stream and the messages it has
  printed on the standard error stream.
\<close>

record proc =
  out :: ostream
  err :: "string list"

section \<open>ichi-sign\<close>

subsection \<open>The helpers of \<^verbatim>\<open>utils.h\<close>\<close>

text \<open>
  Modelled from the spec: \<^verbatim>\<open>utils.c\<close> (\<^verbatim>\<open>_read\<close>, \<^verbatim>\<open>_write\<close>, \<^verbatim>\<open>_err\<close>) is not among
  the sources. The spec (4.2, 4.4) has a read of exactly \<open>n\<close> bytes in which a short
  read is an error, as \<^verbatim>\<open>read_exactly\<close> of kurv does; the macros \<^verbatim>\<open>XREAD\<close> and
  \<^verbatim>\<open>XWRITE\<close> report a non-zero result as \<^verbatim>\<open>fread()\<close> and \<^verbatim>\<open>fwrite()\<close>.
  \<open>utils_read\<close> returns its result, the bytes stored at the start of the buffer and
  the stream.
\<close>

definition utils_read :: "istream \<Rightarrow> nat \<Rightarrow> int \<times> bytes \<times> istream" where
  "utils_read fp n =
     (case fread fp n of (chunk, fp') \<Rightarrow> ((if length chunk \<noteq> n then 1 else 0), chunk, fp'))"

text \<open>
  Modelled from the spec: \<^verbatim>\<open>_write(fp, buf, n)\<close> of \<^verbatim>\<open>utils.c\<close>, not among the sources:
  it writes the \<open>n\<close> bytes and returns non-zero when they could not be written.
\<close>

definition utils_write :: "ostream \<Rightarrow> bytes \<Rightarrow> nat \<Rightarrow> int \<times> ostream" where
  "utils_write fp buf n =
     (case fwrite fp buf n of (k, fp') \<Rightarrow> ((if k \<noteq> n then 1 else 0), fp'))"

text \<open>\<^verbatim>\<open>ERR(...)\<close> prints one message on the standard error stream.\<close>

definition ERR :: "string \<Rightarrow> proc \<Rightarrow> proc" where
  "ERR m p = p\<lparr>err := err p @ [m]\<rparr>"

text \<open>
  \<^verbatim>\<open>XWRITE(fp, buf, n)\<close> followed by the rest \<open>k\<close> of the function: a failed write
  jumps to the label \<^verbatim>\<open>error\<close>, where every function using the macro returns its
  \<^verbatim>\<open>rv\<close>, still 1 at each use.
\<close>

definition XWRITE :: "proc \<Rightarrow> bytes \<Rightarrow> nat \<Rightarrow> (proc \<Rightarrow> int \<times> proc) \<Rightarrow> int \<times> proc" where
  "XWRITE p buf n k =
     (case utils_write (out p) buf n of
        (rc, fp') \<Rightarrow>
          if rc \<noteq> 0 then (1, ERR ''fwrite()'' (p\<lparr>out := fp'\<rparr>))
          else k (p\<lparr>out := fp'\<rparr>))"

subsection \<open>\<^verbatim>\<open>fp_to_buf\<close>\<close>

definition BUF_SIZE :: nat where
  "BUF_SIZE = 64 * 1024"

text \<open>
  The loop of \<^verbatim>\<open>fp_to_buf\<close>: \<open>buf\<close> holds the \<^verbatim>\<open>total\<close> bytes read so far and \<open>sz\<close> is
  the allocated \<^verbatim>\<open>size\<close>. The result is the buffer, or \<open>None\<close> for \<^verbatim>\<open>NULL\<close>, and the
  message printed.
\<close>

function fp_to_buf_loop :: "sys \<Rightarrow> istream \<Rightarrow> bytes \<Rightarrow> nat \<Rightarrow> bytes option \<times> string list" where
  "fp_to_buf_loop sy fp buf sz =
     (case fread fp BUF_SIZE of
        (chunk, fp') \<Rightarrow>
          let buf' = buf @ chunk; total = length buf' in
          if ferror fp' then (None, [''fread()''])
          else if feof fp' then (Some buf', [])
          else if total + BUF_SIZE > sz then
            (if \<not> malloc_ok sy (sz + BUF_SIZE) then (None, [''malloc()''])
             else fp_to_buf_loop sy fp' buf' (sz + BUF_SIZE))
          else fp_to_buf_loop sy fp' buf' sz)"
  by pat_completeness auto
termination
  by (relation "measure (\<lambda>(sy, fp, buf, sz). length (pending fp))")
     (auto simp: fread_def feof_def ferror_def BUF_SIZE_def split: if_splits)

declare fp_to_buf_loop.simps [simp del]

definition fp_to_buf :: "sys \<Rightarrow> istream \<Rightarrow> bytes option \<times> string list" where
  "fp_to_buf sy fp =
     (if \<not> malloc_ok sy BUF_SIZE then (None, [''malloc()''])
      else fp_to_buf_loop sy fp [] BUF_SIZE)"

subsection \<open>\<^verbatim>\<open>sign\<close>\<close>

text \<open>
  The contexts hold the state of the input streams at the call; the stream that
  \<^verbatim>\<open>ctx.output\<close> points to is the \<open>out\<close> of the process. The \<^verbatim>\<open>uint8_t\<close> flags, set
  to 0 or 1 by \<^verbatim>\<open>main\<close> and only tested, are booleans.
\<close>

record sign_ctx =
  input :: istream
  sk :: bytes
  detached :: bool

definition ichi_sign :: "sys \<Rightarrow> codec \<Rightarrow> crypto \<Rightarrow> sign_ctx \<Rightarrow> proc \<Rightarrow> int \<times> proc" where
  "ichi_sign sy cdc cr ctx p =
     (case fp_to_buf sy (sign_ctx.input ctx) of
        (None, msgs) \<Rightarrow> (1, p\<lparr>err := err p @ msgs\<rparr>)
      | (Some msg, _) \<Rightarrow>
          let msg_size = length msg;
              pk = crypto_sign_public_key cr (sk ctx);
              sig = crypto_sign cr (sk ctx) pk msg;
              b64_sig = b64_encode cdc (take 64 sig)
          in if sign_ctx.detached ctx then
               XWRITE p b64_sig B64_SIG_SIZE (\<lambda>p. (0, p))
             else
               XWRITE p msg msg_size (\<lambda>p.
               XWRITE p SIG_ARMOR_TOP (length SIG_ARMOR_TOP) (\<lambda>p.
               XWRITE p b64_sig 44 (\<lambda>p.
               XWRITE p [NL] 1 (\<lambda>p.
               XWRITE p (drop 44 b64_sig) 44 (\<lambda>p.
               XWRITE p SIG_ARMOR_END (length SIG_ARMOR_END) (\<lambda>p. (0, p))))))))"

subsection \<open>\<^verbatim>\<open>sig_from_file\<close>\<close>

text \<open>
  The result is \<open>None\<close> for the return value 1 and the signature stored in \<^verbatim>\<open>sig\<close> for
  the return value 0, with the signature stream after the call.
\<close>

definition sig_from_file :: "codec \<Rightarrow> istream \<Rightarrow> proc \<Rightarrow> bytes option \<times> istream \<times> proc" where
  "sig_from_file cdc fp p =
     (case utils_read fp B64_SIG_SIZE of
        (rc, b64_sig, fp') \<Rightarrow>
          if rc \<noteq> 0 then (None, fp', ERR ''fread()'' p)
          else if b64_validate cdc (take B64_SIG_SIZE b64_sig) \<noteq> 0
                  \<or> b64_decoded_size cdc (take B64_SIG_SIZE b64_sig) \<noteq> 64
          then (None, fp', ERR ''malformed signature'' p)
          else (Some (b64_decode cdc (take B64_SIG_SIZE b64_sig)), fp', p))"

subsection \<open>\<^verbatim>\<open>verify_keyring\<close> and \<^verbatim>\<open>verify\<close>\<close>

record verify_ctx =
  input :: istream
  sig :: "istream option"
  pk_fn :: string
  pk :: bytes
  detached :: bool
  keyring :: bool
  stream_output :: bool

definition strlen :: "string \<Rightarrow> nat" where
  "strlen s = length s"

text \<open>\<^verbatim>\<open>strcmp\<close>, of which the sources only test the result against 0.\<close>

definition strcmp :: "string \<Rightarrow> string \<Rightarrow> int" where
  "strcmp a b = (if a = b then 0 else 1)"

text \<open>The character at an index of a C string, whose last character is the zero byte.\<close>

definition cstr_at :: "string \<Rightarrow> nat \<Rightarrow> char" where
  "cstr_at s i = (if i < length s then s ! i else NUL)"

definition good_signature_by :: "string \<Rightarrow> string" where
  "good_signature_by who = ''good signature by '' @ [CHR 0x27] @ who @ [CHR 0x27]"

text \<open>
  The loop over the entries that \<^verbatim>\<open>readdir\<close> returns. At the end of the directory
  \<^verbatim>\<open>rv\<close> is still 1. A read of fewer than 44 bytes skips the entry, so the buffer
  \<^verbatim>\<open>b64_pk\<close> is used only when the read has filled it.
\<close>

fun keyring_loop ::
  "codec \<Rightarrow> crypto \<Rightarrow> verify_ctx \<Rightarrow> bytes \<Rightarrow> nat \<Rightarrow> bytes \<Rightarrow> string \<Rightarrow> DIR \<Rightarrow> string list \<Rightarrow> proc
     \<Rightarrow> int \<times> proc" where
  "keyring_loop cdc cr ctx msg msg_size sg keyring_dir d [] p = (1, p)"
| "keyring_loop cdc cr ctx msg msg_size sg keyring_dir d (d_name # rest) p =
     (if strlen d_name \<ge> 9
         \<and> strcmp (drop (strlen d_name - 9) d_name) ''.sign.pub'' = 0
      then
        (case files d d_name of
           Absent \<Rightarrow> keyring_loop cdc cr ctx msg msg_size sg keyring_dir d rest p
         | Unreadable \<Rightarrow> keyring_loop cdc cr ctx msg msg_size sg keyring_dir d rest p
         | File content \<Rightarrow>
             let b64_pk = take B64_KEY_SIZE content in
             if length b64_pk < B64_KEY_SIZE
                \<or> b64_validate cdc b64_pk \<noteq> 0
                \<or> b64_decoded_size cdc b64_pk \<noteq> 32
             then keyring_loop cdc cr ctx msg msg_size sg keyring_dir d rest p
             else
               let pk = b64_decode cdc b64_pk in
               if crypto_check cr sg pk (take msg_size msg) = 0 then
                 (let p1 = ERR (good_signature_by
                                  (keyring_dir
                                   @ (if cstr_at keyring_dir (strlen keyring_dir) = CHR ''/''
                                      then [] else ''/'')
                                   @ d_name)) p
                  in if stream_output ctx then XWRITE p1 msg msg_size (\<lambda>p. (0, p))
                     else (0, p1))
               else keyring_loop cdc cr ctx msg msg_size sg keyring_dir d rest p)
      else keyring_loop cdc cr ctx msg msg_size sg keyring_dir d rest p)"

definition verify_keyring ::
  "sys \<Rightarrow> codec \<Rightarrow> crypto \<Rightarrow> verify_ctx \<Rightarrow> bytes \<Rightarrow> nat \<Rightarrow> bytes \<Rightarrow> proc \<Rightarrow> (int \<times> proc) outcome" where
  "verify_keyring sy cdc cr ctx msg msg_size sg p =
     (case getenv sy ''ICHI_SIGN_KEYRING'' of
        None \<Rightarrow> Returns (1, ERR ''$ICHI_SIGN_KEYRING is unset'' p)
      | Some keyring_dir \<Rightarrow>
          let dir = opendir sy keyring_dir in
          (case dirfd dir of
             Undefined \<Rightarrow> Undefined
           | Returns dir_fd \<Rightarrow>
               if dir_fd < 0 then Returns (1, ERR ''dirfd()'' p)
               else (case dir of
                       None \<Rightarrow> Undefined
                     | Some d \<Rightarrow>
                         Returns (keyring_loop cdc cr ctx msg msg_size sg keyring_dir d
                                    (entries d) p))))"

definition verify :: "sys \<Rightarrow> codec \<Rightarrow> crypto \<Rightarrow> verify_ctx \<Rightarrow> proc \<Rightarrow> (int \<times> proc) outcome" where
  "verify sy cdc cr ctx p =
     (case fp_to_buf sy (input ctx) of
        (None, msgs) \<Rightarrow> Returns (1, p\<lparr>err := err p @ msgs\<rparr>)
      | (Some msg, _) \<Rightarrow>
          (case (if detached ctx then
                   (case sig ctx of
                      None \<Rightarrow> Undefined
                    | Some sfp \<Rightarrow>
                        (case sig_from_file cdc sfp p of
                           (None, _, p') \<Rightarrow> Returns (Inl p')
                         | (Some sg, _, p') \<Rightarrow> Returns (Inr (sg, length msg, p'))))
                 else
                   (case sig_from_buf cdc msg of
                      Undefined \<Rightarrow> Undefined
                    | Returns None \<Rightarrow> Returns (Inl (ERR ''malformed signature'' p))
                    | Returns (Some (sg, new_size)) \<Rightarrow> Returns (Inr (sg, new_size, p))))
           of
             Undefined \<Rightarrow> Undefined
           | Returns (Inl p') \<Rightarrow> Returns (1, p')
           | Returns (Inr (sg, msg_size, p')) \<Rightarrow>
               if keyring ctx then verify_keyring sy cdc cr ctx msg msg_size sg p'
               else if crypto_check cr sg (pk ctx) (take msg_size msg) \<noteq> 0
               then Returns (1, ERR ''invalid signature'' p')
               else if stream_output ctx
               then Returns (XWRITE p' msg msg_size
                               (\<lambda>p. (0, ERR (good_signature_by (pk_fn ctx)) p)))
               else Returns (0, ERR (good_signature_by (pk_fn ctx)) p')))"

subsection \<open>\<^verbatim>\<open>trim\<close>\<close>

definition trim :: "sys \<Rightarrow> codec \<Rightarrow> istream \<Rightarrow> proc \<Rightarrow> (int \<times> proc) outcome" where
  "trim sy cdc inp p =
     (case fp_to_buf sy inp of
        (None, msgs) \<Rightarrow> Returns (1, p\<lparr>err := err p @ msgs\<rparr>)
      | (Some msg, _) \<Rightarrow>
          (case sig_from_buf cdc msg of
             Undefined \<Rightarrow> Undefined
           | Returns None \<Rightarrow> Returns (1, ERR ''malformed signature'' p)
           | Returns (Some (tmp, msg_size)) \<Rightarrow>
               Returns (XWRITE p msg msg_size (\<lambda>p. (0, p)))))"

subsection \<open>\<^verbatim>\<open>read_key_from_file\<close>\<close>

text \<open>
  \<open>b64_key0\<close> is what the local array \<^verbatim>\<open>b64_key\<close> holds when the function is entered.
  The result is the return value, the key stored (\<open>None\<close> when \<^verbatim>\<open>key\<close> is not
  written), the contents of \<^verbatim>\<open>b64_key\<close> when the function returns, and the message
  printed. Every path goes through the label \<^verbatim>\<open>error\<close>, which wipes \<^verbatim>\<open>b64_key\<close>.
\<close>

definition read_key_from_file ::
  "sys \<Rightarrow> codec \<Rightarrow> string \<Rightarrow> bytes \<Rightarrow> int \<times> bytes option \<times> bytes \<times> string list" where
  "read_key_from_file sy cdc fn b64_key0 =
     (case fopen sy fn of
        None \<Rightarrow> (1, None, crypto_wipe b64_key0 B64_KEY_SIZE, [''fopen()''])
      | Some fp \<Rightarrow>
          (case utils_read fp B64_KEY_SIZE of
             (rc, chunk, fp') \<Rightarrow>
               let b64_key = chunk @ drop (length chunk) b64_key0 in
               if rc \<noteq> 0 then (1, None, crypto_wipe b64_key B64_KEY_SIZE, [''fread()''])
               else if b64_validate cdc (take B64_KEY_SIZE b64_key) \<noteq> 0
                       \<or> b64_decoded_size cdc (take B64_KEY_SIZE b64_key) \<noteq> 32
               then (1, None, crypto_wipe b64_key B64_KEY_SIZE, [''malformed key''])
               else (0, Some (b64_decode cdc (take B64_KEY_SIZE b64_key)),
                     crypto_wipe b64_key B64_KEY_SIZE, [])))"

section \<open>kurv\<close>

text \<open>
  A function of kurv returns to its caller or ends the process with \<^verbatim>\<open>exit\<close>. The
  macro \<^verbatim>\<open>err\<close> prints its prefix with \<^verbatim>\<open>perror\<close>; \<^verbatim>\<open>die\<close> prints a message and exits
  with status 1, and \<^verbatim>\<open>errdie\<close> does both. The \<open>out\<close> of the process is its standard
  output.
\<close>

datatype status = Return int | Exit int

definition kurv_err :: "string \<Rightarrow> proc \<Rightarrow> proc" where
  "kurv_err pfx p = p\<lparr>err := err p @ [pfx]\<rparr>"

definition die :: "string \<Rightarrow> proc \<Rightarrow> status \<times> proc" where
  "die m p = (Exit 1, p\<lparr>err := err p @ [m]\<rparr>)"

definition errdie :: "string \<Rightarrow> proc \<Rightarrow> status \<times> proc" where
  "errdie pfx p = (Exit 1, kurv_err pfx p)"

text \<open>A write to the standard output whose result the source does not look at.\<close>

definition fwrite_stdout :: "proc \<Rightarrow> bytes \<Rightarrow> nat \<Rightarrow> proc" where
  "fwrite_stdout p buf n = p\<lparr>out := snd (fwrite (out p) buf n)\<rparr>"

subsection \<open>\<^verbatim>\<open>read_exactly\<close> and \<^verbatim>\<open>read_file\<close>\<close>

text \<open>
  \<^verbatim>\<open>read_exactly(buf, n, fp)\<close>: the return value, the bytes stored at the start of
  \<^verbatim>\<open>buf\<close>, the stream after the call and the process.
\<close>

definition read_exactly :: "nat \<Rightarrow> istream \<Rightarrow> proc \<Rightarrow> int \<times> bytes \<times> istream \<times> proc" where
  "read_exactly n fp p =
     (case fread fp n of
        (chunk, fp') \<Rightarrow>
          if length chunk \<noteq> n then (- 1, chunk, fp', kurv_err ''kurv: fread'' p)
          else (0, chunk, fp', p))"

definition READ_SIZE :: nat where
  "READ_SIZE = 1024 * 4096"

text \<open>
  The loop of \<^verbatim>\<open>read_file\<close>: \<open>buf\<close> holds the \<^verbatim>\<open>total\<close> bytes read so far, \<open>sz\<close> is the
  allocated \<^verbatim>\<open>size\<close>. \<open>None\<close> is the return of \<^verbatim>\<open>NULL\<close> from inside the loop, when
  \<^verbatim>\<open>reallocarray\<close> fails; otherwise the result is the stream and the buffer when the
  loop is left.
\<close>

function read_file_loop ::
  "sys \<Rightarrow> istream \<Rightarrow> bytes \<Rightarrow> nat \<Rightarrow> nat \<Rightarrow> (istream \<times> bytes) option" where
  "read_file_loop sy fp buf sz r =
     (if feof fp then Some (fp, buf)
      else
        (case fread fp READ_SIZE of
           (chunk, fp') \<Rightarrow>
             let n = length chunk in
             if n > 0 then
               (let buf' = buf @ chunk; total = length buf' in
                if sz \<le> total then
                  (let r' = r + 1; sz' = sz + r' * READ_SIZE in
                   if \<not> malloc_ok sy sz' then None
                   else read_file_loop sy fp' buf' sz' r')
                else read_file_loop sy fp' buf' sz r)
             else Some (fp', buf)))"
  by pat_completeness auto
termination
  by (relation "measure (\<lambda>(sy, fp, buf, sz, r). length (pending fp))")
     (auto simp: fread_def split: if_splits)

declare read_file_loop.simps [simp del]

definition read_file :: "sys \<Rightarrow> istream \<Rightarrow> proc \<Rightarrow> bytes option \<times> proc" where
  "read_file sy fp p =
     (if \<not> malloc_ok sy READ_SIZE then (None, kurv_err ''kurv: malloc'' p)
      else
        (case read_file_loop sy fp [] READ_SIZE 0 of
           None \<Rightarrow> (None, kurv_err ''kurv: realloc'' p)
         | Some (fp', buf) \<Rightarrow>
             if ferror fp' then (None, kurv_err ''kurv: fread'' p)
             else (Some buf, p)))"

subsection \<open>\<^verbatim>\<open>find_key\<close> and \<^verbatim>\<open>find_key_in_file\<close>\<close>

definition find_key :: "codec \<Rightarrow> bytes \<Rightarrow> nat \<Rightarrow> bytes option" where
  "find_key cdc buf bufsize =
     (if bufsize < B64_KEY_SIZE then None
      else decode_exactly cdc 32 buf B64_KEY_SIZE)"

text \<open>
  \<open>b64_key0\<close> is what the local array \<^verbatim>\<open>b64_key\<close> holds when the function is entered.
  The result is the key stored in \<^verbatim>\<open>key\<close> (\<open>None\<close> for the return value \<open>-1\<close>, which
  leaves \<^verbatim>\<open>key\<close> as it was), the contents of \<^verbatim>\<open>b64_key\<close> when the function returns,
  the key stream and the process. Only the failing branch calls \<^verbatim>\<open>crypto_wipe\<close>.
\<close>

definition find_key_in_file ::
  "codec \<Rightarrow> istream \<Rightarrow> bytes \<Rightarrow> proc \<Rightarrow> bytes option \<times> bytes \<times> istream \<times> proc" where
  "find_key_in_file cdc fp b64_key0 p =
     (case read_exactly B64_KEY_SIZE fp p of
        (rc, chunk, fp', p') \<Rightarrow>
          let b64_key = chunk @ drop (length chunk) b64_key0 in
          if rc \<noteq> 0 then (None, crypto_wipe b64_key B64_KEY_SIZE, fp', p')
          else
            (case find_key cdc b64_key B64_KEY_SIZE of
               None \<Rightarrow> (None, crypto_wipe b64_key B64_KEY_SIZE, fp', p')
             | Some key \<Rightarrow> (Some key, b64_key, fp', p')))"

subsection \<open>\<^verbatim>\<open>endswith\<close>\<close>

definition endswith :: "string \<Rightarrow> string \<Rightarrow> int" where
  "endswith src sfx =
     (let src_size = strlen src; suffix_size = strlen sfx in
      if src_size < suffix_size then - 1
      else (case memcmp src (src_size - suffix_size) sfx suffix_size of
              None \<Rightarrow> - 1
            | Some c \<Rightarrow> c))"

subsection \<open>\<^verbatim>\<open>sign\<close>\<close>

text \<open>
  \<open>sk0\<close> and \<open>b64_key0\<close> are what the arrays \<^verbatim>\<open>sk\<close> of \<^verbatim>\<open>sign\<close> and \<^verbatim>\<open>b64_key\<close> of
  \<^verbatim>\<open>find_key_in_file\<close> hold at first. The result is the status, the process, and
  what the two arrays hold when \<^verbatim>\<open>sign\<close> returns or exits.
\<close>

definition kurv_sign ::
  "sys \<Rightarrow> codec \<Rightarrow> crypto \<Rightarrow> istream \<Rightarrow> istream \<Rightarrow> bytes \<Rightarrow> bytes \<Rightarrow> proc
     \<Rightarrow> status \<times> proc \<times> bytes \<times> bytes" where
  "kurv_sign sy cdc cr fp sk_fp sk0 b64_key0 p =
     (case find_key_in_file cdc sk_fp b64_key0 p of
        (None, b64_key, _, p1) \<Rightarrow>
          (case die ''invalid private key.'' p1 of
             (st, p2) \<Rightarrow> (st, p2, crypto_wipe sk0 32, b64_key))
      | (Some skey, b64_key, _, p1) \<Rightarrow>
          (case read_file sy fp p1 of
             (None, p2) \<Rightarrow>
               (case errdie ''cannot read file'' p2 of
                  (st, p3) \<Rightarrow> (st, p3, crypto_wipe skey 32, b64_key))
           | (Some msg, p2) \<Rightarrow>
               let msg_size = length msg;
                   pk = crypto_sign_public_key cr skey;
                   sig = crypto_sign cr skey pk msg;
                   b64_sig = b64_encode cdc (take 64 sig);
                   p3 = fwrite_stdout p2 msg msg_size;
                   p4 = fwrite_stdout p3 SIG_START SIG_START_LEN;
                   p5 = fwrite_stdout p4 b64_sig B64_SIG_SIZE;
                   p6 = fwrite_stdout p5 SIG_END SIG_END_LEN
               in (Return 0, p6, crypto_wipe skey 32, b64_key)))"

subsection \<open>\<^verbatim>\<open>check_keyring\<close>, \<^verbatim>\<open>check\<close> and \<^verbatim>\<open>detach\<close>\<close>

text \<open>
  The loop of \<^verbatim>\<open>check_keyring\<close> over the entries that \<^verbatim>\<open>readdir\<close> returns; \<open>path\<close> is
  the directory with its final slash, to which the name of the entry is appended.
  The statement after the loop is \<^verbatim>\<open>die("cannot find a signer.")\<close>.
\<close>

fun check_keyring_loop ::
  "sys \<Rightarrow> codec \<Rightarrow> crypto \<Rightarrow> bytes \<Rightarrow> bytes \<Rightarrow> nat \<Rightarrow> bool \<Rightarrow> bool \<Rightarrow> string \<Rightarrow> bytes
     \<Rightarrow> string list \<Rightarrow> proc \<Rightarrow> status \<times> proc" where
  "check_keyring_loop sy cdc cr sg msg msg_size should_show_id should_show_og path b64_key0 [] p =
     die ''cannot find a signer.'' p"
| "check_keyring_loop sy cdc cr sg msg msg_size should_show_id should_show_og path b64_key0
     (d_name # rest) p =
     (if strcmp d_name ''.'' = 0 \<or> strcmp d_name ''..'' = 0 \<or> endswith d_name ''.pub'' \<noteq> 0
      then check_keyring_loop sy cdc cr sg msg msg_size should_show_id should_show_og path
             b64_key0 rest p
      else
        (case fopen sy (path @ d_name) of
           None \<Rightarrow>
             check_keyring_loop sy cdc cr sg msg msg_size should_show_id should_show_og path
               b64_key0 rest p
         | Some pk_fp \<Rightarrow>
             (case find_key_in_file cdc pk_fp b64_key0 p of
                (None, _, _, p') \<Rightarrow>
                  check_keyring_loop sy cdc cr sg msg msg_size should_show_id should_show_og
                    path b64_key0 rest p'
              | (Some pkey, _, _, p') \<Rightarrow>
                  if crypto_check cr sg pkey (take msg_size msg) \<noteq> 0 then
                    check_keyring_loop sy cdc cr sg msg msg_size should_show_id should_show_og
                      path b64_key0 rest p'
                  else
                    (let p1 = (if should_show_id
                               then fwrite_stdout p' (d_name @ [NL]) (length d_name + 1)
                               else p');
                         p2 = (if should_show_og then fwrite_stdout p1 msg msg_size else p1)
                     in (Exit 0, p2)))))"

definition NAME_MAX :: nat where
  "NAME_MAX = 255"

definition check_keyring ::
  "sys \<Rightarrow> codec \<Rightarrow> crypto \<Rightarrow> istream \<Rightarrow> bool \<Rightarrow> bool \<Rightarrow> bytes \<Rightarrow> proc \<Rightarrow> (status \<times> proc) outcome" where
  "check_keyring sy cdc cr fp should_show_id should_show_og b64_key0 p =
     (let keyring_dir = getenv sy ''KURV_KEYRING'';
          keyring_dir_len = (case keyring_dir of None \<Rightarrow> 0 | Some kd \<Rightarrow> strlen kd)
      in case keyring_dir of
           None \<Rightarrow> Returns (die ''$KURV_KEYRING is not set.'' p)
         | Some kd \<Rightarrow>
             if keyring_dir_len = 0 then Returns (die ''$KURV_KEYRING is not set.'' p)
             else
               (case read_file sy fp p of
                  (None, p1) \<Rightarrow> Returns (die ''error reading file.'' p1)
                | (Some msg, p1) \<Rightarrow>
                    (case find_signature cdc msg of
                       Undefined \<Rightarrow> Undefined
                     | Returns None \<Rightarrow> Returns (die ''cannot find / malformed signature.'' p1)
                     | Returns (Some (sg, msg_size)) \<Rightarrow>
                         if \<not> malloc_ok sy (keyring_dir_len + NAME_MAX + 2)
                         then Returns (errdie ''malloc'' p1)
                         else
                           let path = (if cstr_at kd (keyring_dir_len - 1) \<noteq> CHR ''/''
                                       then kd @ ''/'' else kd)
                           in (case opendir sy kd of
                                 None \<Rightarrow> Returns (errdie ''opendir'' p1)
                               | Some dir \<Rightarrow>
                                   Returns (check_keyring_loop sy cdc cr sg msg msg_size
                                              should_show_id should_show_og path b64_key0
                                              (entries dir) p1)))))"

definition check ::
  "sys \<Rightarrow> codec \<Rightarrow> crypto \<Rightarrow> istream \<Rightarrow> istream \<Rightarrow> string \<Rightarrow> bool \<Rightarrow> bool \<Rightarrow> bytes \<Rightarrow> proc
     \<Rightarrow> (status \<times> proc) outcome" where
  "check sy cdc cr fp pk_fp pk_fname should_show_id should_show_og b64_key0 p =
     (case find_key_in_file cdc pk_fp b64_key0 p of
        (None, _, _, p1) \<Rightarrow> Returns (die ''invalid public key.'' p1)
      | (Some pkey, _, _, p1) \<Rightarrow>
          (case read_file sy fp p1 of
             (None, p2) \<Rightarrow> Returns (die ''error reading file.'' p2)
           | (Some msg, p2) \<Rightarrow>
               (case find_signature cdc msg of
                  Undefined \<Rightarrow> Undefined
                | Returns None \<Rightarrow> Returns (die ''cannot find / malformed signature.'' p2)
                | Returns (Some (sg, msg_size)) \<Rightarrow>
                    if crypto_check cr sg pkey (take msg_size msg) \<noteq> 0
                    then Returns (die ''invalid signature.'' p2)
                    else
                      let p3 = (if should_show_id
                                then fwrite_stdout p2 (pk_fname @ [NL]) (length pk_fname + 1)
                                else p2);
                          p4 = (if should_show_og then fwrite_stdout p3 msg msg_size else p3)
                      in Returns (Return 0, p4))))"

definition detach :: "sys \<Rightarrow> codec \<Rightarrow> istream \<Rightarrow> proc \<Rightarrow> (status \<times> proc) outcome" where
  "detach sy cdc fp p =
     (case read_file sy fp p of
        (None, p1) \<Rightarrow> Returns (die ''error reading file.'' p1)
      | (Some msg, p1) \<Rightarrow>
          (case find_signature cdc msg of
             Undefined \<Rightarrow> Undefined
           | Returns None \<Rightarrow> Returns (die ''cannot find / malformed signature.'' p1)
           | Returns (Some (sg, msg_size)) \<Rightarrow>
               Returns (Return 0, fwrite_stdout p1 msg msg_size)))"

section \<open>Layouts, a reference codec and sample data\<close>

text \<open>The stream of a file that has just been opened and reads without error.\<close>

definition fresh :: "bytes \<Rightarrow> istream" where
  "fresh bs = \<lparr>pending = bs, eof_ind = False, err_ind = False, faulty = False\<rparr>"

text \<open>A process that has written nothing yet, on an output stream that works.\<close>

definition start :: proc where
  "start = \<lparr>out = \<lparr>written = [], wfaulty = False\<rparr>, err = []\<rparr>"

text \<open>
  The joined layout in the words of the specification: the buffer is long enough, the
  start marker is at the tail position, the end marker is at the very end and the
  byte between the two halves of 44 characters is a newline.
\<close>

definition ichi_layout :: "bytes \<Rightarrow> bool" where
  "ichi_layout buf \<longleftrightarrow>
     length SIG_ARMOR_TOP + 44 + 1 + 44 + length SIG_ARMOR_END \<le> length buf
     \<and> take (length SIG_ARMOR_TOP)
          (drop (length buf - (length SIG_ARMOR_TOP + 44 + 1 + 44 + length SIG_ARMOR_END)) buf)
        = SIG_ARMOR_TOP
     \<and> drop (length buf - length SIG_ARMOR_END) buf = SIG_ARMOR_END
     \<and> buf ! (length buf - length SIG_ARMOR_END - 44 - 1) = NL"

text \<open>The layout of kurv: the two markers around 88 characters, with no separator.\<close>

definition kurv_layout :: "bytes \<Rightarrow> bool" where
  "kurv_layout buf \<longleftrightarrow>
     length SIG_START + 88 + length SIG_END \<le> length buf
     \<and> take (length SIG_START) (drop (length buf - (length SIG_START + 88 + length SIG_END)) buf)
        = SIG_START
     \<and> drop (length buf - length SIG_END) buf = SIG_END"

text \<open>
  Modelled from the spec: the text encoding of \<^verbatim>\<open>base64/base64.c\<close>, which is not among
  the sources. The spec has 44 characters for a key of 32 bytes and 88 for a signature
  of 64 bytes, as the comments of kurv have (\<^verbatim>\<open>b64_encoded_size(32)\<close> is 44): this is
  standard base64 with padding. The programs are evaluated with it on sample data;
  every general statement below is about an arbitrary codec.
\<close>

definition b64_chars :: string where
  "b64_chars = ''ABCDEFGHIJKLMNOPQRSTUVWXYZabcdefghijklmnopqrstuvwxyz0123456789+/''"

fun b64_enc :: "nat list \<Rightarrow> string" where
  "b64_enc (a # b # c # r) =
     [b64_chars ! (a div 4), b64_chars ! ((a mod 4) * 16 + b div 16),
      b64_chars ! ((b mod 16) * 4 + c div 64), b64_chars ! (c mod 64)] @ b64_enc r"
| "b64_enc [a, b] =
     [b64_chars ! (a div 4), b64_chars ! ((a mod 4) * 16 + b div 16),
      b64_chars ! ((b mod 16) * 4), CHR ''='']"
| "b64_enc [a] = [b64_chars ! (a div 4), b64_chars ! ((a mod 4) * 16), CHR ''='', CHR ''='']"
| "b64_enc [] = []"

fun b64_index :: "string \<Rightarrow> char \<Rightarrow> nat" where
  "b64_index [] c = 0"
| "b64_index (x # xs) c = (if x = c then 0 else Suc (b64_index xs c))"

fun b64_dec :: "nat list \<Rightarrow> nat list" where
  "b64_dec (a # b # c # d # r) =
     (if 64 \<le> c then [a * 4 + b div 16]
      else if 64 \<le> d then [a * 4 + b div 16, (b mod 16) * 16 + c div 4]
      else [a * 4 + b div 16, (b mod 16) * 16 + c div 4, (c mod 4) * 64 + d]) @ b64_dec r"
| "b64_dec r = []"

definition b64_padding :: "string \<Rightarrow> nat" where
  "b64_padding t = length (takeWhile (\<lambda>c. c = CHR ''='') (rev t))"

definition std_codec :: codec where
  "std_codec =
     \<lparr>b64_encode = (\<lambda>bs. b64_enc (map of_char bs)),
      b64_decode = (\<lambda>t. map char_of (b64_dec (map (b64_index b64_chars) t))),
      b64_validate =
        (\<lambda>t. if length t mod 4 = 0 \<and> b64_padding t \<le> 2
                  \<and> list_all (\<lambda>c. c \<in> set b64_chars) (take (length t - b64_padding t) t)
               then 0 else - 1),
      b64_decoded_size = (\<lambda>t. (length t div 4) * 3 - b64_padding t)\<rparr>"

text \<open>
  A stand-in for the signature primitive to evaluate the programs with: the public key
  is the secret key reversed, and a signature is the first 64 bytes of the public key
  followed by the message and zeros. Every general statement below is about an
  arbitrary primitive.
\<close>

definition toy_crypto :: crypto where
  "toy_crypto =
     \<lparr>crypto_sign_public_key = rev,
      crypto_sign = (\<lambda>sk pk msg. take 64 (pk @ msg @ replicate 64 NUL)),
      crypto_check = (\<lambda>sg pk msg. if sg = take 64 (pk @ msg @ replicate 64 NUL) then 0 else - 1)\<rparr>"

text \<open>A system in which every allocation succeeds.\<close>

definition a_sys ::
  "(string \<Rightarrow> string option) \<Rightarrow> (string \<Rightarrow> DIR option) \<Rightarrow> (string \<Rightarrow> istream option) \<Rightarrow> sys" where
  "a_sys env dirs fls = \<lparr>malloc_ok = (\<lambda>n. True), getenv = env, opendir = dirs, fopen = fls\<rparr>"

definition sample_sig :: bytes where
  "sample_sig = replicate 32 (CHR ''k'') @ replicate 31 (CHR 0x9F) @ [CHR 0x03]"

definition sample_b64_sig :: bytes where
  "sample_b64_sig =
     ''a2tra2tra2tra2tra2tra2tra2tra2tra2tra2tra2ufn5+fn5+fn5+fn5+fn5+fn5+fn5+fn5+fn5+fn5+fAw==''"

definition sample_sk :: bytes where
  "sample_sk = replicate 16 (CHR ''s'') @ replicate 16 (CHR ''K'')"

definition sample_b64_sk :: bytes where
  "sample_b64_sk = ''c3Nzc3Nzc3Nzc3Nzc3Nzc0tLS0tLS0tLS0tLS0tLS0s=''"

definition no_sys :: sys where
  "no_sys = a_sys (\<lambda>v. None) (\<lambda>d. None) (\<lambda>f. None)"

definition hello_sig :: bytes where
  "hello_sig = crypto_sign toy_crypto sample_sk (crypto_sign_public_key toy_crypto sample_sk) ''hello''"

definition hello_b64_sig :: bytes where
  "hello_b64_sig =
     ''S0tLS0tLS0tLS0tLS0tLS3Nzc3Nzc3Nzc3Nzc3Nzc3NoZWxsbwAAAAAAAAAAAAAAAAAAAAAAAAAAAAAAAAAAAA==''"

text \<open>Sample keys, signed inputs and keyrings to evaluate the programs on.\<close>

definition sample_b64_pk :: bytes where
  "sample_b64_pk = ''S0tLS0tLS0tLS0tLS0tLS3Nzc3Nzc3Nzc3Nzc3Nzc3M=''"

definition other_b64_pk :: bytes where
  "other_b64_pk = ''enp6enp6enp6enp6enp6enp6enp6enp6enp6enp6eno=''"

definition junk_key_text :: bytes where
  "junk_key_text = ''this is not an encoded key, only some text..''"

definition ichi_signed_hello :: bytes where
  "ichi_signed_hello =
     ''hello'' @ SIG_ARMOR_TOP @ take 44 hello_b64_sig @ [NL] @ drop 44 hello_b64_sig @ SIG_ARMOR_END"

definition kurv_signed_hello :: bytes where
  "kurv_signed_hello = ''hello'' @ SIG_START @ hello_b64_sig @ SIG_END"

definition ichi_keys :: DIR where
  "ichi_keys =
     \<lparr>dd_fd = 3,
      entries = [''.'', ''..'', ''alice.pub'', ''short.sign.pub'', ''gone.sign.pub'',
                 ''sub.sign.pub'', ''junk.sign.pub'', ''other.sign.pub'', ''alice.sign.pub'',
                 ''late.sign.pub''],
      files = (\<lambda>name.
        if name = ''alice.pub'' then File (sample_b64_pk @ [NL])
        else if name = ''short.sign.pub'' then File ''abc''
        else if name = ''sub.sign.pub'' then Unreadable
        else if name = ''junk.sign.pub'' then File junk_key_text
        else if name = ''other.sign.pub'' then File (other_b64_pk @ [NL])
        else if name = ''alice.sign.pub'' then File (sample_b64_pk @ [NL])
        else if name = ''late.sign.pub'' then File (sample_b64_pk @ [NL])
        else Absent)\<rparr>"

definition ichi_sys :: sys where
  "ichi_sys =
     a_sys (\<lambda>v. if v = ''ICHI_SIGN_KEYRING'' then Some ''/keys'' else None)
           (\<lambda>d. if d = ''/keys'' then Some ichi_keys else None)
           (\<lambda>f. None)"

definition kurv_keys :: DIR where
  "kurv_keys =
     \<lparr>dd_fd = 3,
      entries = [''.'', ''..'', ''alice.sign'', ''short.pub'', ''gone.pub'', ''junk.pub'',
                 ''other.pub'', ''alice.pub'', ''late.pub''],
      files = (\<lambda>name. Absent)\<rparr>"

definition kurv_sys :: sys where
  "kurv_sys =
     a_sys (\<lambda>v. if v = ''KURV_KEYRING'' then Some ''/keys'' else None)
           (\<lambda>d. if d = ''/keys'' then Some kurv_keys else None)
           (\<lambda>f. if f = ''/keys/alice.sign'' then Some (fresh (sample_b64_pk @ [NL]))
                else if f = ''/keys/short.pub'' then Some (fresh ''abc'')
                else if f = ''/keys/junk.pub'' then Some (fresh junk_key_text)
                else if f = ''/keys/other.pub'' then Some (fresh (other_b64_pk @ [NL]))
                else if f = ''/keys/alice.pub'' then Some (fresh (sample_b64_pk @ [NL]))
                else if f = ''/keys/late.pub'' then Some (fresh (sample_b64_pk @ [NL]))
                else None)"

definition keyring_ctx :: "bytes \<Rightarrow> bool \<Rightarrow> verify_ctx" where
  "keyring_ctx inp x =
     \<lparr>input = fresh inp, sig = None, pk_fn = [], pk = replicate 32 NUL, detached = False,
      keyring = True, stream_output = x\<rparr>"

definition key_ctx :: "bytes \<Rightarrow> bytes \<Rightarrow> bool \<Rightarrow> verify_ctx" where
  "key_ctx inp k x =
     \<lparr>input = fresh inp, sig = None, pk_fn = ''alice.sign.pub'', pk = k, detached = False,
      keyring = False, stream_output = x\<rparr>"

definition ichi_forged_hello :: bytes where
  "ichi_forged_hello =
     ''hello'' @ SIG_ARMOR_TOP @ take 44 sample_b64_sig @ [NL] @ drop 44 sample_b64_sig
     @ SIG_ARMOR_END"

definition kurv_forged_hello :: bytes where
  "kurv_forged_hello = ''hello'' @ SIG_START @ sample_b64_sig @ SIG_END"

text \<open>
  The keyring scan in the words of the specification: a candidate is an entry whose
  name ends in the suffix; it matches when it loads as a public key that the
  verification accepts; the scan reports the first entry that matches. The entries
  scanned are those before the first match.
\<close>

definition candidate_matches ::
  "string \<Rightarrow> (string \<Rightarrow> bytes option) \<Rightarrow> (bytes \<Rightarrow> bool) \<Rightarrow> string \<Rightarrow> bool" where
  "candidate_matches sfx load accepts name \<longleftrightarrow>
     suffix sfx name \<and> (case load name of None \<Rightarrow> False | Some key \<Rightarrow> accepts key)"

definition first_match ::
  "string \<Rightarrow> (string \<Rightarrow> bytes option) \<Rightarrow> (bytes \<Rightarrow> bool) \<Rightarrow> string list \<Rightarrow> string option" where
  "first_match sfx load accepts names = find (candidate_matches sfx load accepts) names"

definition scanned_before ::
  "string \<Rightarrow> (string \<Rightarrow> bytes option) \<Rightarrow> (bytes \<Rightarrow> bool) \<Rightarrow> string list \<Rightarrow> string list" where
  "scanned_before sfx load accepts names =
     takeWhile (\<lambda>name. \<not> candidate_matches sfx load accepts name) names"

text \<open>
  Loading one entry of the keyring as a public key (4.4 of the specification): the
  file opens, 44 characters are read, they validate and decode to 32 bytes. ichi-sign
  loads from the open directory, kurv from the path of the entry.
\<close>

definition ichi_loads :: "codec \<Rightarrow> DIR \<Rightarrow> string \<Rightarrow> bytes option" where
  "ichi_loads cdc d name =
     (case files d name of
        File content \<Rightarrow>
          if 44 \<le> length content \<and> b64_validate cdc (take 44 content) = 0
             \<and> b64_decoded_size cdc (take 44 content) = 32
          then Some (b64_decode cdc (take 44 content)) else None
      | _ \<Rightarrow> None)"

definition kurv_loads :: "sys \<Rightarrow> codec \<Rightarrow> string \<Rightarrow> string \<Rightarrow> bytes option" where
  "kurv_loads sy cdc path name =
     (case fopen sy (path @ name) of
        None \<Rightarrow> None
      | Some fp \<Rightarrow>
          let chunk = fst (fread fp 44) in
          if length chunk = 44 \<and> b64_validate cdc chunk = 0 \<and> b64_decoded_size cdc chunk = 32
          then Some (b64_decode cdc chunk) else None)"

text \<open>
  The messages that \<^verbatim>\<open>read_exactly\<close> of kurv prints for the candidates, among the given
  entries, that open and hold fewer than 44 bytes.
\<close>

definition kurv_short_reads :: "sys \<Rightarrow> string \<Rightarrow> string list \<Rightarrow> string list" where
  "kurv_short_reads sy path names =
     concat (map (\<lambda>name.
        if suffix ''.pub'' name then
          (case fopen sy (path @ name) of
             None \<Rightarrow> []
           | Some fp \<Rightarrow> if length (fst (fread fp 44)) \<noteq> 44 then [''kurv: fread''] else [])
        else []) names)"

text \<open>A system in which the keyring variables name a directory that does not open.\<close>

definition broken_keyring_sys :: sys where
  "broken_keyring_sys =
     a_sys (\<lambda>v. if v = ''ICHI_SIGN_KEYRING'' \<or> v = ''KURV_KEYRING'' then Some ''/nonexistent''
                else None)
           (\<lambda>d. None) (\<lambda>f. None)"

section \<open>Properties\<close>

subsection \<open>Sizes and memory reads\<close>

lemma marker_lengths:
  "length SIG_ARMOR_TOP = 30" "length SIG_ARMOR_END = 30"
  "length SIG_START = 30" "length SIG_END = 28"
  by (simp_all add: SIG_ARMOR_TOP_def SIG_ARMOR_END_def SIG_START_def SIG_END_def)

lemma sizes:
  "TOP_SZ = 30" "END_SZ = 30" "SIG_SZ = 89" "TOTAL_SZ = 149"
  "SIG_START_LEN = 30" "SIG_END_LEN = 28" "B64_SIG_SIZE = 88" "B64_KEY_SIZE = 44"
  by (simp_all add: TOP_SZ_def END_SZ_def SIG_SZ_def TOTAL_SZ_def SIG_START_LEN_def
        SIG_END_LEN_def B64_SIG_SIZE_def B64_KEY_SIZE_def marker_lengths)

lemma mem_read_Some:
  "off + n \<le> length buf \<Longrightarrow> mem_read buf off n = Some (take n (drop off buf))"
  by (simp add: mem_read_def)

lemma mem_read_whole: "mem_read lit 0 (length lit) = Some lit"
  by (simp add: mem_read_def)

lemma memcmp_eq:
  "off + length lit \<le> length buf \<Longrightarrow>
   memcmp buf off lit (length lit) = Some (if take (length lit) (drop off buf) = lit then 0 else 1)"
  by (simp add: memcmp_def mem_read_Some mem_read_whole)

subsection \<open>What the two finders compute\<close>

text \<open>
  Each finder accepts exactly the buffers of its layout whose 88 characters the codec
  validates; all reads stay inside the buffer.
\<close>

lemma sig_from_buf_eq:
  "sig_from_buf cdc buf =
     (if ichi_layout buf then
        (let n = length buf - 149;
             b64_sig = take 44 (drop (n + 30) buf) @ take 44 (drop (n + 75) buf)
         in if b64_validate cdc b64_sig \<noteq> 0 \<or> b64_decoded_size cdc b64_sig \<noteq> 64
            then Returns None
            else Returns (Some (b64_decode cdc b64_sig, n)))
      else Returns None)"
proof (cases "length buf < 149")
  case True
  then show ?thesis
    by (simp add: sig_from_buf_def sizes ichi_layout_def marker_lengths)
next
  case False
  define n where "n = length buf - 149"
  have len: "length buf = n + 149" using False by (simp add: n_def)
  have top: "memcmp buf n SIG_ARMOR_TOP 30
               = Some (if take 30 (drop n buf) = SIG_ARMOR_TOP then 0 else 1)"
    using memcmp_eq[of n SIG_ARMOR_TOP buf] len by (simp add: marker_lengths)
  have en: "memcmp buf (n + 119) SIG_ARMOR_END 30
               = Some (if drop (n + 119) buf = SIG_ARMOR_END then 0 else 1)"
    using memcmp_eq[of "n + 119" SIG_ARMOR_END buf] len by (simp add: marker_lengths)
  have sep: "mem_read buf (n + 74) 1 = Some [buf ! (n + 74)]"
    using len by (simp add: mem_read_def take_Suc_conv_app_nth hd_drop_conv_nth take_Suc)
  have h1: "mem_read buf (n + 30) 44 = Some (take 44 (drop (n + 30) buf))"
    using len by (simp add: mem_read_def)
  have h2: "mem_read buf (n + 75) 44 = Some (take 44 (drop (n + 75) buf))"
    using len by (simp add: mem_read_def)
  have lay: "ichi_layout buf \<longleftrightarrow>
               take 30 (drop n buf) = SIG_ARMOR_TOP \<and> drop (n + 119) buf = SIG_ARMOR_END
               \<and> buf ! (n + 74) = NL"
    using len by (simp add: ichi_layout_def marker_lengths add.commute)
  show ?thesis
    unfolding sig_from_buf_def Let_def sizes lay
    using len top en sep h1 h2
    by (simp add: n_def[symmetric] add.commute)
qed


lemma find_signature_eq:
  "find_signature cdc buf =
     (if kurv_layout buf then
        (let n = length buf - 146;
             b64_sig = take 88 (drop (n + 30) buf)
         in if b64_validate cdc b64_sig \<noteq> 0 \<or> b64_decoded_size cdc b64_sig \<noteq> 64
            then Returns None
            else Returns (Some (b64_decode cdc b64_sig, n)))
      else Returns None)"
proof (cases "length buf < 146")
  case True
  then show ?thesis
    by (simp add: find_signature_def sizes kurv_layout_def marker_lengths)
next
  case False
  define n where "n = length buf - 146"
  have len: "length buf = n + 146" using False by (simp add: n_def)
  have en: "memcmp buf (n + 118) SIG_END 28
               = Some (if drop (n + 118) buf = SIG_END then 0 else 1)"
    using memcmp_eq[of "n + 118" SIG_END buf] len by (simp add: marker_lengths)
  have top: "memcmp buf n SIG_START 30
               = Some (if take 30 (drop n buf) = SIG_START then 0 else 1)"
    using memcmp_eq[of n SIG_START buf] len by (simp add: marker_lengths)
  have b: "mem_read buf (n + 30) 88 = Some (take 88 (drop (n + 30) buf))"
    using len by (simp add: mem_read_def)
  have lay: "kurv_layout buf \<longleftrightarrow>
               take 30 (drop n buf) = SIG_START \<and> drop (n + 118) buf = SIG_END"
    using len by (simp add: kurv_layout_def marker_lengths add.commute)
  show ?thesis
    unfolding find_signature_def Let_def sizes lay decode_exactly_def
    using len top en b
    by (auto simp add: n_def[symmetric] add.commute)
qed

lemma ichi_layout_envelope:
  assumes "length h1 = 44" "length h2 = 44"
  shows "ichi_layout (m @ SIG_ARMOR_TOP @ h1 @ [NL] @ h2 @ SIG_ARMOR_END)"
  using assms by (simp add: ichi_layout_def marker_lengths nth_append)

lemma sig_from_buf_envelope:
  assumes "length h1 = 44" "length h2 = 44"
  shows "sig_from_buf cdc (m @ SIG_ARMOR_TOP @ h1 @ [NL] @ h2 @ SIG_ARMOR_END) =
           (if b64_validate cdc (h1 @ h2) \<noteq> 0 \<or> b64_decoded_size cdc (h1 @ h2) \<noteq> 64
            then Returns None
            else Returns (Some (b64_decode cdc (h1 @ h2), length m)))"
  unfolding sig_from_buf_eq using assms ichi_layout_envelope[OF assms, of m]
  by (simp add: marker_lengths Let_def)

lemma kurv_layout_envelope:
  assumes "length b64 = 88"
  shows "kurv_layout (m @ SIG_START @ b64 @ SIG_END)"
  using assms by (simp add: kurv_layout_def marker_lengths)

lemma find_signature_envelope:
  assumes "length b64 = 88"
  shows "find_signature cdc (m @ SIG_START @ b64 @ SIG_END) =
           (if b64_validate cdc b64 \<noteq> 0 \<or> b64_decoded_size cdc b64 \<noteq> 64
            then Returns None
            else Returns (Some (b64_decode cdc b64, length m)))"
  unfolding find_signature_eq using assms kurv_layout_envelope[OF assms, of m]
  by (simp add: marker_lengths Let_def)


subsection \<open>Reading a whole stream\<close>

lemma fp_to_buf_loop_all:
  "\<not> faulty fp \<Longrightarrow> \<not> err_ind fp \<Longrightarrow> \<not> eof_ind fp \<Longrightarrow> \<forall>n. malloc_ok sy n \<Longrightarrow>
   fp_to_buf_loop sy fp buf sz = (Some (buf @ pending fp), [])"
proof (induction sy fp buf sz rule: fp_to_buf_loop.induct)
  case (1 sy fp buf sz)
  show ?case
  proof (cases "length (pending fp) < BUF_SIZE")
    case True
    with "1.prems" show ?thesis
      by (subst fp_to_buf_loop.simps) (simp add: fread_def ferror_def feof_def)
  next
    case False
    let ?fp' = "fp\<lparr>pending := drop BUF_SIZE (pending fp), eof_ind := False\<rparr>"
    have fr: "fread fp BUF_SIZE = (take BUF_SIZE (pending fp), ?fp')"
      using False "1.prems" by (simp add: fread_def)
    have ok: "\<not> ferror ?fp'" "\<not> feof ?fp'" "\<not> faulty ?fp'" "\<not> err_ind ?fp'" "\<not> eof_ind ?fp'"
      using "1.prems" by (simp_all add: ferror_def feof_def)
    have app: "(buf @ take BUF_SIZE (pending fp)) @ pending ?fp' = buf @ pending fp"
      by simp
    have ih1: "fp_to_buf_loop sy ?fp' (buf @ take BUF_SIZE (pending fp)) (sz + BUF_SIZE)
                 = (Some (buf @ pending fp), [])"
      if "length (buf @ take BUF_SIZE (pending fp)) + BUF_SIZE > sz"
      using "1.IH"(1)[of "take BUF_SIZE (pending fp)" ?fp'] fr ok "1.prems" that app
      by simp
    have ih2: "fp_to_buf_loop sy ?fp' (buf @ take BUF_SIZE (pending fp)) sz
                 = (Some (buf @ pending fp), [])"
      if "\<not> length (buf @ take BUF_SIZE (pending fp)) + BUF_SIZE > sz"
      using "1.IH"(2)[of "take BUF_SIZE (pending fp)" ?fp'] fr ok "1.prems" that app
      by simp
    show ?thesis
      apply (subst fp_to_buf_loop.simps)
      using ih1 ih2 ok "1.prems" by (simp add: fr Let_def)
  qed
qed

lemma fp_to_buf_fresh:
  "\<forall>n. malloc_ok sy n \<Longrightarrow> fp_to_buf sy (fresh m) = (Some m, [])"
  by (simp add: fp_to_buf_def fp_to_buf_loop_all fresh_def)


lemma read_file_loop_all:
  "\<not> faulty fp \<Longrightarrow> \<not> err_ind fp \<Longrightarrow> \<forall>n. malloc_ok sy n \<Longrightarrow>
   \<exists>fp'. read_file_loop sy fp buf sz r
            = Some (fp', buf @ (if eof_ind fp then [] else pending fp)) \<and> \<not> err_ind fp'"
proof (induction sy fp buf sz r rule: read_file_loop.induct)
  case (1 sy fp buf sz r)
  show ?case
  proof (cases "eof_ind fp")
    case True
    with "1.prems" show ?thesis
      by (subst read_file_loop.simps) (simp add: feof_def)
  next
    case noeof: False
    let ?chunk = "take READ_SIZE (pending fp)"
    let ?fp' = "fp\<lparr>pending := drop READ_SIZE (pending fp),
                    eof_ind := length (pending fp) < READ_SIZE\<rparr>"
    have fr: "fread fp READ_SIZE = (?chunk, ?fp')"
      using noeof "1.prems" by (simp add: fread_def)
    have ok: "\<not> faulty ?fp'" "\<not> err_ind ?fp'"
      using "1.prems" by simp_all
    have rest: "(buf @ ?chunk) @ (if eof_ind ?fp' then [] else pending ?fp') = buf @ pending fp"
      by simp
    show ?thesis
    proof (cases "?chunk = []")
      case True
      then have "pending fp = []" by (auto simp: READ_SIZE_def)
      with True noeof ok show ?thesis
        by (subst read_file_loop.simps) (simp add: feof_def fr)
    next
      case False
      have ih1: "\<exists>fp''. read_file_loop sy ?fp' (buf @ ?chunk) (sz + (r + 1) * READ_SIZE) (r + 1)
                   = Some (fp'', buf @ pending fp) \<and> \<not> err_ind fp''"
        if "sz \<le> length (buf @ ?chunk)"
        using "1.IH"(1)[of ?chunk ?fp'] fr ok "1.prems" that noeof False rest
        by (simp add: feof_def)
      have ih2: "\<exists>fp''. read_file_loop sy ?fp' (buf @ ?chunk) sz r
                   = Some (fp'', buf @ pending fp) \<and> \<not> err_ind fp''"
        if "\<not> sz \<le> length (buf @ ?chunk)"
        using "1.IH"(2)[of ?chunk ?fp'] fr ok "1.prems" that noeof False rest
        by (simp add: feof_def)
      show ?thesis
        apply (subst read_file_loop.simps)
        using ih1 ih2 noeof False "1.prems" by (simp add: fr Let_def feof_def)
    qed
  qed
qed

lemma read_file_fresh:
  assumes "\<forall>n. malloc_ok sy n"
  shows "read_file sy (fresh m) p = (Some m, p)"
proof -
  obtain fp' where "read_file_loop sy (fresh m) [] READ_SIZE 0 = Some (fp', m)" "\<not> err_ind fp'"
    using read_file_loop_all[of "fresh m" sy "[]" READ_SIZE 0] assms
    by (auto simp: fresh_def)
  then show ?thesis using assms by (simp add: read_file_def ferror_def)
qed

subsection \<open>What the signers write\<close>

lemma XWRITE_ok:
  "\<not> wfaulty (out p) \<Longrightarrow>
   XWRITE p buf n k = k (p\<lparr>out := (out p)\<lparr>written := written (out p) @ take n buf\<rparr>\<rparr>)"
  by (simp add: XWRITE_def utils_write_def fwrite_def)

lemma fwrite_stdout_ok:
  "\<not> wfaulty (out p) \<Longrightarrow>
   fwrite_stdout p buf n = p\<lparr>out := (out p)\<lparr>written := written (out p) @ take n buf\<rparr>\<rparr>"
  by (simp add: fwrite_stdout_def fwrite_def)

lemma ichi_sign_joined:
  assumes "\<forall>n. malloc_ok sy n" "\<not> wfaulty (out p)"
    and "b64 = b64_encode cdc (take 64 (crypto_sign cr k (crypto_sign_public_key cr k) m))"
  shows "ichi_sign sy cdc cr \<lparr>sign_ctx.input = fresh m, sign_ctx.sk = k, sign_ctx.detached = False\<rparr> p =
           (0, p\<lparr>out := (out p)\<lparr>written := written (out p) @ m @ SIG_ARMOR_TOP @ take 44 b64
                                            @ [NL] @ take 44 (drop 44 b64) @ SIG_ARMOR_END\<rparr>\<rparr>)"
  using assms by (simp add: ichi_sign_def fp_to_buf_fresh XWRITE_ok Let_def)

lemma ichi_sign_detached:
  assumes "\<forall>n. malloc_ok sy n" "\<not> wfaulty (out p)"
    and "b64 = b64_encode cdc (take 64 (crypto_sign cr k (crypto_sign_public_key cr k) m))"
  shows "ichi_sign sy cdc cr \<lparr>sign_ctx.input = fresh m, sign_ctx.sk = k, sign_ctx.detached = True\<rparr> p =
           (0, p\<lparr>out := (out p)\<lparr>written := written (out p) @ take 88 b64\<rparr>\<rparr>)"
  using assms by (simp add: ichi_sign_def fp_to_buf_fresh XWRITE_ok Let_def sizes)

lemma find_key_in_file_ok:
  assumes "length kb64 = 44" "b64_validate cdc kb64 = 0" "b64_decoded_size cdc kb64 = 32"
  shows "find_key_in_file cdc (fresh (kb64 @ rest)) b64_key0 p =
           (Some (b64_decode cdc kb64), kb64 @ drop 44 b64_key0,
            \<lparr>pending = rest, eof_ind = False, err_ind = False, faulty = False\<rparr>, p)"
  using assms
  by (simp add: find_key_in_file_def read_exactly_def fread_def fresh_def sizes find_key_def
        decode_exactly_def Let_def)

lemma kurv_sign_ok:
  assumes "\<forall>n. malloc_ok sy n" "\<not> wfaulty (out p)"
    and "length kb64 = 44" "b64_validate cdc kb64 = 0" "b64_decoded_size cdc kb64 = 32"
    and "k = b64_decode cdc kb64"
    and "b64 = b64_encode cdc (take 64 (crypto_sign cr k (crypto_sign_public_key cr k) m))"
  shows "kurv_sign sy cdc cr (fresh m) (fresh (kb64 @ rest)) sk0 b64_key0 p =
           (Return 0,
            p\<lparr>out := (out p)\<lparr>written := written (out p) @ m @ SIG_START @ take 88 b64
                                            @ SIG_END\<rparr>\<rparr>,
            crypto_wipe k 32, kb64 @ drop 44 b64_key0)"
  using assms
  by (simp add: kurv_sign_def find_key_in_file_ok read_file_fresh fwrite_stdout_ok Let_def sizes
        marker_lengths)


subsection \<open>The sample data\<close>

lemma no_sys_malloc: "\<forall>n. malloc_ok no_sys n"
  by (simp add: no_sys_def a_sys_def)

lemma start_ok: "\<not> wfaulty (out start)"
  by (simp add: start_def)

lemma hello_sig_facts:
  "length hello_sig = 64"
  "b64_encode std_codec hello_sig = hello_b64_sig"
  "length hello_b64_sig = 88"
  "b64_validate std_codec hello_b64_sig = 0"
  "b64_decoded_size std_codec hello_b64_sig = 64"
  "b64_decode std_codec hello_b64_sig = hello_sig"
  by code_simp+

lemma sample_sk_facts:
  "length sample_b64_sk = 44"
  "b64_validate std_codec sample_b64_sk = 0"
  "b64_decoded_size std_codec sample_b64_sk = 32"
  "b64_decode std_codec sample_b64_sk = sample_sk"
  by code_simp+

subsection \<open>Round trip of the joined envelope\<close>

text \<open>
  C2. For every signature \<open>s\<close> of 64 bytes and every message \<open>m\<close>, the finder applied
  to what the signer writes in joined mode, the message followed by the envelope of
  \<open>s\<close>, returns \<open>s\<close> and the length of \<open>m\<close>: \<^verbatim>\<open>sig_from_buf\<close> on the output of
  \<^verbatim>\<open>sign\<close> of ichi-sign, and \<^verbatim>\<open>find_signature\<close> on the output of \<^verbatim>\<open>sign\<close> of kurv. The
  signature primitive is arbitrary, so \<open>s\<close> ranges over all signatures; the codec is
  any codec that encodes \<open>s\<close> to 88 characters which it validates and decodes back.
\<close>

theorem joined_round_trip:
  assumes "\<forall>n. malloc_ok sy n" and "\<not> wfaulty (out p)"
    and "length s = 64"
    and "length (b64_encode cdc s) = 88"
    and "b64_validate cdc (b64_encode cdc s) = 0"
    and "b64_decoded_size cdc (b64_encode cdc s) = 64"
    and "b64_decode cdc (b64_encode cdc s) = s"
  shows "(crypto_sign cr k (crypto_sign_public_key cr k) m = s \<longrightarrow>
            fst (ichi_sign sy cdc cr
                   \<lparr>sign_ctx.input = fresh m, sign_ctx.sk = k, sign_ctx.detached = False\<rparr> p) = 0
            \<and> sig_from_buf cdc
                  (drop (length (written (out p)))
                     (written (out (snd (ichi_sign sy cdc cr
                        \<lparr>sign_ctx.input = fresh m, sign_ctx.sk = k, sign_ctx.detached = False\<rparr>
                        p)))))
                = Returns (Some (s, length m)))
         \<and> (length kb64 = 44 \<and> b64_validate cdc kb64 = 0 \<and> b64_decoded_size cdc kb64 = 32
              \<and> crypto_sign cr (b64_decode cdc kb64)
                    (crypto_sign_public_key cr (b64_decode cdc kb64)) m = s \<longrightarrow>
            fst (kurv_sign sy cdc cr (fresh m) (fresh (kb64 @ rest)) sk0 b64_key0 p) = Return 0
            \<and> find_signature cdc
                  (drop (length (written (out p)))
                     (written (out (fst (snd (kurv_sign sy cdc cr (fresh m) (fresh (kb64 @ rest))
                                               sk0 b64_key0 p))))))
                = Returns (Some (s, length m)))"
proof (intro conjI impI)
  let ?b64 = "b64_encode cdc s"
  have h: "length (take 44 ?b64) = 44" "length (take 44 (drop 44 ?b64)) = 44"
    "take 44 ?b64 @ take 44 (drop 44 ?b64) = ?b64" "take 88 ?b64 = ?b64"
    using assms(4) by (simp_all add: take_add[symmetric])
  {
    assume sg: "crypto_sign cr k (crypto_sign_public_key cr k) m = s"
    have run: "ichi_sign sy cdc cr
                 \<lparr>sign_ctx.input = fresh m, sign_ctx.sk = k, sign_ctx.detached = False\<rparr> p =
               (0, p\<lparr>out := (out p)\<lparr>written := written (out p) @ m @ SIG_ARMOR_TOP
                      @ take 44 ?b64 @ [NL] @ take 44 (drop 44 ?b64) @ SIG_ARMOR_END\<rparr>\<rparr>)"
      using ichi_sign_joined[OF assms(1,2), of ?b64 cdc cr k m] sg assms(3) by simp
    show "fst (ichi_sign sy cdc cr
                 \<lparr>sign_ctx.input = fresh m, sign_ctx.sk = k, sign_ctx.detached = False\<rparr> p) = 0"
      by (simp add: run)
    show "sig_from_buf cdc
            (drop (length (written (out p)))
               (written (out (snd (ichi_sign sy cdc cr
                  \<lparr>sign_ctx.input = fresh m, sign_ctx.sk = k, sign_ctx.detached = False\<rparr> p)))))
          = Returns (Some (s, length m))"
      using sig_from_buf_envelope[OF h(1,2), of cdc m] assms(5,6,7)
      by (simp add: run h(3))
  }
  {
    assume a: "length kb64 = 44 \<and> b64_validate cdc kb64 = 0 \<and> b64_decoded_size cdc kb64 = 32
               \<and> crypto_sign cr (b64_decode cdc kb64)
                    (crypto_sign_public_key cr (b64_decode cdc kb64)) m = s"
    have run: "kurv_sign sy cdc cr (fresh m) (fresh (kb64 @ rest)) sk0 b64_key0 p =
                 (Return 0,
                  p\<lparr>out := (out p)\<lparr>written := written (out p) @ m @ SIG_START @ take 88 ?b64
                                                  @ SIG_END\<rparr>\<rparr>,
                  crypto_wipe (b64_decode cdc kb64) 32, kb64 @ drop 44 b64_key0)"
      using kurv_sign_ok[OF assms(1,2), of kb64 cdc "b64_decode cdc kb64" ?b64 cr m] a assms(3)
      by simp
    show "fst (kurv_sign sy cdc cr (fresh m) (fresh (kb64 @ rest)) sk0 b64_key0 p) = Return 0"
      by (simp add: run)
    show "find_signature cdc
            (drop (length (written (out p)))
               (written (out (fst (snd (kurv_sign sy cdc cr (fresh m) (fresh (kb64 @ rest))
                                         sk0 b64_key0 p))))))
          = Returns (Some (s, length m))"
      using find_signature_envelope[OF assms(4), of cdc m] assms(5,6,7)
      by (simp add: run h(4))
  }
qed


theorem joined_round_trip_witness:
  "length hello_sig = 64
   \<and> crypto_sign toy_crypto sample_sk (crypto_sign_public_key toy_crypto sample_sk) ''hello''
       = hello_sig
   \<and> sig_from_buf std_codec
        (drop (length (written (out start)))
           (written (out (snd (ichi_sign no_sys std_codec toy_crypto
              \<lparr>sign_ctx.input = fresh ''hello'', sign_ctx.sk = sample_sk,
                 sign_ctx.detached = False\<rparr> start)))))
       = Returns (Some (hello_sig, length ''hello''))
   \<and> find_signature std_codec
        (drop (length (written (out start)))
           (written (out (fst (snd (kurv_sign no_sys std_codec toy_crypto (fresh ''hello'')
              (fresh (sample_b64_sk @ [NL])) (replicate 32 NUL) (replicate 44 NUL) start))))))
       = Returns (Some (hello_sig, length ''hello''))"
proof -
  have c: "length (b64_encode std_codec hello_sig) = 88"
    "b64_validate std_codec (b64_encode std_codec hello_sig) = 0"
    "b64_decoded_size std_codec (b64_encode std_codec hello_sig) = 64"
    "b64_decode std_codec (b64_encode std_codec hello_sig) = hello_sig"
    by (simp_all add: hello_sig_facts)
  have sg: "crypto_sign toy_crypto sample_sk (crypto_sign_public_key toy_crypto sample_sk) ''hello''
              = hello_sig"
    by (simp add: hello_sig_def)
  have sg': "crypto_sign toy_crypto (b64_decode std_codec sample_b64_sk)
               (crypto_sign_public_key toy_crypto (b64_decode std_codec sample_b64_sk)) ''hello''
              = hello_sig"
    by (simp add: hello_sig_def sample_sk_facts)
  note t = joined_round_trip[OF no_sys_malloc start_ok hello_sig_facts(1) c,
             of toy_crypto sample_sk "''hello''" sample_b64_sk "[NL]" "replicate 32 NUL"
                "replicate 44 NUL"]
  from t sg have "sig_from_buf std_codec
        (drop (length (written (out start)))
           (written (out (snd (ichi_sign no_sys std_codec toy_crypto
              \<lparr>sign_ctx.input = fresh ''hello'', sign_ctx.sk = sample_sk,
                 sign_ctx.detached = False\<rparr> start)))))
       = Returns (Some (hello_sig, length ''hello''))"
    by blast
  moreover from t sg' sample_sk_facts have "find_signature std_codec
        (drop (length (written (out start)))
           (written (out (fst (snd (kurv_sign no_sys std_codec toy_crypto (fresh ''hello'')
              (fresh (sample_b64_sk @ [NL])) (replicate 32 NUL) (replicate 44 NUL) start))))))
       = Returns (Some (hello_sig, length ''hello''))"
    by blast
  ultimately show ?thesis using hello_sig_facts(1) sg by blast
qed

subsection \<open>Buffers shorter than the envelope\<close>

lemma sig_from_buf_defined: "sig_from_buf cdc buf \<noteq> Undefined"
  by (simp add: sig_from_buf_eq Let_def)

lemma find_signature_defined: "find_signature cdc buf \<noteq> Undefined"
  by (simp add: find_signature_eq Let_def)

text \<open>
  C5. Every buffer strictly shorter than the minimum envelope length (149 bytes for
  ichi-sign, 146 for kurv) is rejected with the return value \<open>-1\<close>, which the callers
  report as a malformed signature; no buffer at all makes a finder read outside the
  buffer. A buffer that is exactly a valid envelope is accepted and leaves a message
  of length zero.
\<close>

theorem short_buffer_rejected:
  "(length buf < TOTAL_SZ \<longrightarrow> sig_from_buf cdc buf = Returns None)
   \<and> (length buf < SIG_START_LEN + B64_SIG_SIZE + SIG_END_LEN \<longrightarrow>
        find_signature cdc buf = Returns None)
   \<and> sig_from_buf cdc buf \<noteq> Undefined
   \<and> find_signature cdc buf \<noteq> Undefined
   \<and> (length b64 = 88 \<and> b64_validate cdc b64 = 0 \<and> b64_decoded_size cdc b64 = 64 \<longrightarrow>
        length (SIG_ARMOR_TOP @ take 44 b64 @ [NL] @ drop 44 b64 @ SIG_ARMOR_END) = TOTAL_SZ
        \<and> sig_from_buf cdc (SIG_ARMOR_TOP @ take 44 b64 @ [NL] @ drop 44 b64 @ SIG_ARMOR_END)
            = Returns (Some (b64_decode cdc b64, 0))
        \<and> length (SIG_START @ b64 @ SIG_END) = SIG_START_LEN + B64_SIG_SIZE + SIG_END_LEN
        \<and> find_signature cdc (SIG_START @ b64 @ SIG_END) = Returns (Some (b64_decode cdc b64, 0)))"
proof (intro conjI impI)
  show "sig_from_buf cdc buf = Returns None" if "length buf < TOTAL_SZ"
    using that by (simp add: sig_from_buf_def)
  show "find_signature cdc buf = Returns None"
    if "length buf < SIG_START_LEN + B64_SIG_SIZE + SIG_END_LEN"
    using that by (simp add: find_signature_def Let_def)
  show "sig_from_buf cdc buf \<noteq> Undefined" by (rule sig_from_buf_defined)
  show "find_signature cdc buf \<noteq> Undefined" by (rule find_signature_defined)
next
  assume a: "length b64 = 88 \<and> b64_validate cdc b64 = 0 \<and> b64_decoded_size cdc b64 = 64"
  then have h: "length (take 44 b64) = 44" "length (drop 44 b64) = 44" by simp_all
  show "length (SIG_ARMOR_TOP @ take 44 b64 @ [NL] @ drop 44 b64 @ SIG_ARMOR_END) = TOTAL_SZ"
    using a by (simp add: sizes marker_lengths)
  show "sig_from_buf cdc (SIG_ARMOR_TOP @ take 44 b64 @ [NL] @ drop 44 b64 @ SIG_ARMOR_END)
          = Returns (Some (b64_decode cdc b64, 0))"
    using sig_from_buf_envelope[OF h, of cdc "[]"] a by simp
  show "length (SIG_START @ b64 @ SIG_END) = SIG_START_LEN + B64_SIG_SIZE + SIG_END_LEN"
    using a by (simp add: sizes marker_lengths)
  show "find_signature cdc (SIG_START @ b64 @ SIG_END) = Returns (Some (b64_decode cdc b64, 0))"
    using find_signature_envelope[of b64 cdc "[]"] a by simp
qed

theorem short_buffer_rejected_witness:
  "length ''hello world'' < TOTAL_SZ
   \<and> sig_from_buf std_codec ''hello world'' = Returns None
   \<and> length ''hello world'' < SIG_START_LEN + B64_SIG_SIZE + SIG_END_LEN
   \<and> find_signature std_codec ''hello world'' = Returns None
   \<and> length hello_b64_sig = 88 \<and> b64_validate std_codec hello_b64_sig = 0
   \<and> b64_decoded_size std_codec hello_b64_sig = 64
   \<and> sig_from_buf std_codec
        (SIG_ARMOR_TOP @ take 44 hello_b64_sig @ [NL] @ drop 44 hello_b64_sig @ SIG_ARMOR_END)
       = Returns (Some (hello_sig, 0))
   \<and> find_signature std_codec (SIG_START @ hello_b64_sig @ SIG_END)
       = Returns (Some (hello_sig, 0))"
proof -
  have s: "length ''hello world'' < TOTAL_SZ"
    "length ''hello world'' < SIG_START_LEN + B64_SIG_SIZE + SIG_END_LEN"
    by (simp_all add: sizes)
  note t = short_buffer_rejected[of "''hello world''" std_codec hello_b64_sig]
  show ?thesis using t s hello_sig_facts by simp
qed

subsection \<open>Mismatch of a marker or of the separator\<close>

text \<open>
  C4, as amended. For every buffer, \<^verbatim>\<open>sig_from_buf\<close> of ichi-sign fails with the return
  value \<open>-1\<close> unless the start marker is at the tail position, the end marker is at the
  very end and the byte between the two halves of 44 characters is a newline; the
  result is the same for every codec, so nothing is decoded. \<^verbatim>\<open>find_signature\<close> of kurv
  fails in the same way unless the two markers are in place around 88 contiguous
  characters: its layout has no separator byte.
\<close>

theorem envelope_mismatch_rejected:
  "(\<not> ichi_layout buf \<longrightarrow> sig_from_buf cdc buf = Returns None)
   \<and> (length tp = length SIG_ARMOR_TOP \<and> length h1 = 44 \<and> length h2 = 44
       \<and> length en = length SIG_ARMOR_END
       \<and> (tp \<noteq> SIG_ARMOR_TOP \<or> sep \<noteq> NL \<or> en \<noteq> SIG_ARMOR_END) \<longrightarrow>
       sig_from_buf cdc (m @ tp @ h1 @ [sep] @ h2 @ en) = Returns None)
   \<and> (\<not> kurv_layout buf \<longrightarrow> find_signature cdc buf = Returns None)
   \<and> (length ktop = length SIG_START \<and> length b64 = 88 \<and> length ken = length SIG_END
       \<and> (ktop \<noteq> SIG_START \<or> ken \<noteq> SIG_END) \<longrightarrow>
       find_signature cdc (m @ ktop @ b64 @ ken) = Returns None)"
proof (intro conjI impI)
  show "sig_from_buf cdc buf = Returns None" if "\<not> ichi_layout buf"
    using that by (simp add: sig_from_buf_eq)
  show "find_signature cdc buf = Returns None" if "\<not> kurv_layout buf"
    using that by (simp add: find_signature_eq)
next
  assume a: "length tp = length SIG_ARMOR_TOP \<and> length h1 = 44 \<and> length h2 = 44
       \<and> length en = length SIG_ARMOR_END
       \<and> (tp \<noteq> SIG_ARMOR_TOP \<or> sep \<noteq> NL \<or> en \<noteq> SIG_ARMOR_END)"
  then have "\<not> ichi_layout (m @ tp @ h1 @ [sep] @ h2 @ en)"
    by (auto simp: ichi_layout_def marker_lengths nth_append)
  then show "sig_from_buf cdc (m @ tp @ h1 @ [sep] @ h2 @ en) = Returns None"
    by (simp add: sig_from_buf_eq)
next
  assume a: "length ktop = length SIG_START \<and> length b64 = 88 \<and> length ken = length SIG_END
       \<and> (ktop \<noteq> SIG_START \<or> ken \<noteq> SIG_END)"
  then have "\<not> kurv_layout (m @ ktop @ b64 @ ken)"
    by (auto simp: kurv_layout_def marker_lengths)
  then show "find_signature cdc (m @ ktop @ b64 @ ken) = Returns None"
    by (simp add: find_signature_eq)
qed


theorem envelope_mismatch_rejected_witness:
  "\<not> ichi_layout ''hello world''
   \<and> sig_from_buf std_codec ''hello world'' = Returns None
   \<and> sig_from_buf std_codec
         (''hello'' @ SIG_ARMOR_TOP @ take 44 hello_b64_sig @ [CHR '' ''] @ drop 44 hello_b64_sig
          @ SIG_ARMOR_END) = Returns None
   \<and> \<not> kurv_layout ''hello world''
   \<and> find_signature std_codec ''hello world'' = Returns None
   \<and> find_signature std_codec (''hello'' @ SIG_START @ hello_b64_sig @ replicate 28 (CHR ''-''))
       = Returns None"
proof -
  have l: "\<not> ichi_layout ''hello world''" "\<not> kurv_layout ''hello world''"
    by (simp_all add: ichi_layout_def kurv_layout_def marker_lengths)
  have i: "length SIG_ARMOR_TOP = length SIG_ARMOR_TOP \<and> length (take 44 hello_b64_sig) = 44
           \<and> length (drop 44 hello_b64_sig) = 44 \<and> length SIG_ARMOR_END = length SIG_ARMOR_END
           \<and> (SIG_ARMOR_TOP \<noteq> SIG_ARMOR_TOP \<or> CHR '' '' \<noteq> NL \<or> SIG_ARMOR_END \<noteq> SIG_ARMOR_END)"
    by (simp add: hello_sig_facts NL_def)
  have k: "length SIG_START = length SIG_START \<and> length hello_b64_sig = 88
           \<and> length (replicate 28 (CHR ''-'')) = length SIG_END
           \<and> (SIG_START \<noteq> SIG_START \<or> replicate 28 (CHR ''-'') \<noteq> SIG_END)"
  proof -
    have "replicate 28 (CHR ''-'') \<noteq> SIG_END" by code_simp
    then show ?thesis by (simp add: hello_sig_facts marker_lengths)
  qed
  note t = envelope_mismatch_rejected[of "''hello world''" std_codec SIG_ARMOR_TOP
             "take 44 hello_b64_sig" "drop 44 hello_b64_sig" SIG_ARMOR_END "CHR '' ''" "''hello''"
             SIG_START hello_b64_sig "replicate 28 (CHR ''-'')"]
  show ?thesis using t l i k by simp
qed

text \<open>
  The claim C4 as stated fails for kurv: \<^verbatim>\<open>find_signature\<close> accepts an envelope whose 88
  characters hold no newline at all, and rejects the same data laid out with a newline
  between the two halves.
\<close>

theorem kurv_separator_counterexample:
  "find_signature std_codec (''hello'' @ SIG_START @ hello_b64_sig @ SIG_END)
     = Returns (Some (hello_sig, 5))
   \<and> NL \<notin> set hello_b64_sig
   \<and> find_signature std_codec
        (''hello'' @ SIG_START @ take 44 hello_b64_sig @ [NL] @ drop 44 hello_b64_sig @ SIG_END)
     = Returns None"
proof (intro conjI)
  show "find_signature std_codec (''hello'' @ SIG_START @ hello_b64_sig @ SIG_END)
          = Returns (Some (hello_sig, 5))"
    using find_signature_envelope[OF hello_sig_facts(3), of std_codec "''hello''"]
    by (simp add: hello_sig_facts)
  show "NL \<notin> set hello_b64_sig"
    by (simp add: hello_b64_sig_def NL_def)
  have "\<not> kurv_layout
          (''hello'' @ SIG_START @ take 44 hello_b64_sig @ [NL] @ drop 44 hello_b64_sig @ SIG_END)"
    by (simp add: kurv_layout_def marker_lengths hello_sig_facts)
       (simp add: SIG_START_def NL_def)
  then show "find_signature std_codec
        (''hello'' @ SIG_START @ take 44 hello_b64_sig @ [NL] @ drop 44 hello_b64_sig @ SIG_END)
     = Returns None"
    by (simp add: find_signature_eq)
qed

subsection \<open>Length and layout of what the signers write\<close>

text \<open>
  C3, as amended. For every signature \<open>s\<close> of 64 bytes that the codec encodes to 88
  characters: \<^verbatim>\<open>sign\<close> of ichi-sign in detached mode writes exactly the 88 characters,
  and in joined mode it writes the message, the start marker, the first 44
  characters, one newline, the other 44 characters and the end marker, which adds
  exactly \<open>length SIG_ARMOR_TOP + 44 + 1 + 44 + length SIG_ARMOR_END\<close> bytes to the
  message. \<^verbatim>\<open>sign\<close> of kurv writes the message, its start marker, the 88 characters
  with nothing between them and its end marker, which adds
  \<open>length SIG_START + 88 + length SIG_END\<close> bytes.
\<close>

theorem wrap_layout:
  assumes "\<forall>n. malloc_ok sy n" and "\<not> wfaulty (out p)"
    and "length s = 64" and "length (b64_encode cdc s) = 88"
  shows "(crypto_sign cr k (crypto_sign_public_key cr k) m = s \<longrightarrow>
            ichi_sign sy cdc cr
              \<lparr>sign_ctx.input = fresh m, sign_ctx.sk = k, sign_ctx.detached = True\<rparr> p
            = (0, p\<lparr>out := (out p)\<lparr>written := written (out p) @ b64_encode cdc s\<rparr>\<rparr>)
            \<and> ichi_sign sy cdc cr
                \<lparr>sign_ctx.input = fresh m, sign_ctx.sk = k, sign_ctx.detached = False\<rparr> p
              = (0, p\<lparr>out := (out p)\<lparr>written := written (out p) @ m @ SIG_ARMOR_TOP
                         @ take 44 (b64_encode cdc s) @ [NL] @ drop 44 (b64_encode cdc s)
                         @ SIG_ARMOR_END\<rparr>\<rparr>)
            \<and> length (SIG_ARMOR_TOP @ take 44 (b64_encode cdc s) @ [NL]
                        @ drop 44 (b64_encode cdc s) @ SIG_ARMOR_END)
              = length SIG_ARMOR_TOP + 44 + 1 + 44 + length SIG_ARMOR_END)
         \<and> (length kb64 = 44 \<and> b64_validate cdc kb64 = 0 \<and> b64_decoded_size cdc kb64 = 32
              \<and> crypto_sign cr (b64_decode cdc kb64)
                    (crypto_sign_public_key cr (b64_decode cdc kb64)) m = s \<longrightarrow>
            fst (kurv_sign sy cdc cr (fresh m) (fresh (kb64 @ rest)) sk0 b64_key0 p) = Return 0
            \<and> fst (snd (kurv_sign sy cdc cr (fresh m) (fresh (kb64 @ rest)) sk0 b64_key0 p))
              = p\<lparr>out := (out p)\<lparr>written := written (out p) @ m @ SIG_START
                         @ b64_encode cdc s @ SIG_END\<rparr>\<rparr>
            \<and> length (SIG_START @ b64_encode cdc s @ SIG_END)
              = length SIG_START + 88 + length SIG_END)"
proof (intro conjI impI)
  let ?b64 = "b64_encode cdc s"
  have h: "take 44 (drop 44 ?b64) = drop 44 ?b64" "take 88 ?b64 = ?b64"
    using assms(4) by simp_all
  {
    assume sg: "crypto_sign cr k (crypto_sign_public_key cr k) m = s"
    show "ichi_sign sy cdc cr
            \<lparr>sign_ctx.input = fresh m, sign_ctx.sk = k, sign_ctx.detached = True\<rparr> p
          = (0, p\<lparr>out := (out p)\<lparr>written := written (out p) @ ?b64\<rparr>\<rparr>)"
      using ichi_sign_detached[OF assms(1,2), of ?b64 cdc cr k m] sg assms(3) h by simp
    show "ichi_sign sy cdc cr
            \<lparr>sign_ctx.input = fresh m, sign_ctx.sk = k, sign_ctx.detached = False\<rparr> p
          = (0, p\<lparr>out := (out p)\<lparr>written := written (out p) @ m @ SIG_ARMOR_TOP
                     @ take 44 ?b64 @ [NL] @ drop 44 ?b64 @ SIG_ARMOR_END\<rparr>\<rparr>)"
      using ichi_sign_joined[OF assms(1,2), of ?b64 cdc cr k m] sg assms(3) h by simp
    show "length (SIG_ARMOR_TOP @ take 44 ?b64 @ [NL] @ drop 44 ?b64 @ SIG_ARMOR_END)
          = length SIG_ARMOR_TOP + 44 + 1 + 44 + length SIG_ARMOR_END"
      using assms(4) by simp
  }
  {
    assume a: "length kb64 = 44 \<and> b64_validate cdc kb64 = 0 \<and> b64_decoded_size cdc kb64 = 32
               \<and> crypto_sign cr (b64_decode cdc kb64)
                    (crypto_sign_public_key cr (b64_decode cdc kb64)) m = s"
    have run: "kurv_sign sy cdc cr (fresh m) (fresh (kb64 @ rest)) sk0 b64_key0 p =
                 (Return 0,
                  p\<lparr>out := (out p)\<lparr>written := written (out p) @ m @ SIG_START @ take 88 ?b64
                                                  @ SIG_END\<rparr>\<rparr>,
                  crypto_wipe (b64_decode cdc kb64) 32, kb64 @ drop 44 b64_key0)"
      using kurv_sign_ok[OF assms(1,2), of kb64 cdc "b64_decode cdc kb64" ?b64 cr m] a assms(3)
      by simp
    show "fst (kurv_sign sy cdc cr (fresh m) (fresh (kb64 @ rest)) sk0 b64_key0 p) = Return 0"
      by (simp add: run)
    show "fst (snd (kurv_sign sy cdc cr (fresh m) (fresh (kb64 @ rest)) sk0 b64_key0 p))
          = p\<lparr>out := (out p)\<lparr>written := written (out p) @ m @ SIG_START @ ?b64 @ SIG_END\<rparr>\<rparr>"
      by (simp add: run h)
    show "length (SIG_START @ ?b64 @ SIG_END) = length SIG_START + 88 + length SIG_END"
      using assms(4) by simp
  }
qed


lemma hello_signed:
  "crypto_sign toy_crypto sample_sk (crypto_sign_public_key toy_crypto sample_sk) ''hello''
     = hello_sig"
  "crypto_sign toy_crypto (b64_decode std_codec sample_b64_sk)
     (crypto_sign_public_key toy_crypto (b64_decode std_codec sample_b64_sk)) ''hello''
     = hello_sig"
  by (simp_all add: hello_sig_def sample_sk_facts)

theorem wrap_layout_witness:
  "length hello_sig = 64 \<and> length (b64_encode std_codec hello_sig) = 88
   \<and> ichi_sign no_sys std_codec toy_crypto
        \<lparr>sign_ctx.input = fresh ''hello'', sign_ctx.sk = sample_sk, sign_ctx.detached = True\<rparr>
        start
      = (0, start\<lparr>out := (out start)\<lparr>written := written (out start)
                                           @ b64_encode std_codec hello_sig\<rparr>\<rparr>)
   \<and> ichi_sign no_sys std_codec toy_crypto
        \<lparr>sign_ctx.input = fresh ''hello'', sign_ctx.sk = sample_sk, sign_ctx.detached = False\<rparr>
        start
      = (0, start\<lparr>out := (out start)\<lparr>written := written (out start) @ ''hello''
                 @ SIG_ARMOR_TOP @ take 44 (b64_encode std_codec hello_sig) @ [NL]
                 @ drop 44 (b64_encode std_codec hello_sig) @ SIG_ARMOR_END\<rparr>\<rparr>)
   \<and> fst (snd (kurv_sign no_sys std_codec toy_crypto (fresh ''hello'')
                  (fresh (sample_b64_sk @ [NL])) (replicate 32 NUL) (replicate 44 NUL) start))
      = start\<lparr>out := (out start)\<lparr>written := written (out start) @ ''hello'' @ SIG_START
                 @ b64_encode std_codec hello_sig @ SIG_END\<rparr>\<rparr>"
proof -
  have c: "length (b64_encode std_codec hello_sig) = 88"
    by (simp add: hello_sig_facts)
  note t = wrap_layout[OF no_sys_malloc start_ok hello_sig_facts(1) c,
             of toy_crypto sample_sk "''hello''" sample_b64_sk "[NL]" "replicate 32 NUL"
                "replicate 44 NUL"]
  show ?thesis
    using t hello_signed sample_sk_facts(1,2,3) hello_sig_facts(1) c by blast
qed

text \<open>
  The claim C3 as stated fails for kurv: what \<^verbatim>\<open>sign\<close> appends to the message is one
  byte shorter than the claimed length and is not the claimed layout, since no
  newline separates the two halves.
\<close>

theorem kurv_wrap_counterexample:
  "fst (snd (kurv_sign no_sys std_codec toy_crypto (fresh ''hello'')
               (fresh (sample_b64_sk @ [NL])) (replicate 32 NUL) (replicate 44 NUL) start))
     = start\<lparr>out := (out start)\<lparr>written := ''hello'' @ SIG_START @ hello_b64_sig @ SIG_END\<rparr>\<rparr>
   \<and> length (SIG_START @ hello_b64_sig @ SIG_END)
       \<noteq> length SIG_START + 44 + 1 + 44 + length SIG_END
   \<and> SIG_START @ hello_b64_sig @ SIG_END
       \<noteq> SIG_START @ take 44 hello_b64_sig @ [NL] @ drop 44 hello_b64_sig @ SIG_END"
proof (intro conjI)
  have "take 88 hello_b64_sig = hello_b64_sig"
    by (simp add: hello_sig_facts)
  then show "fst (snd (kurv_sign no_sys std_codec toy_crypto (fresh ''hello'')
               (fresh (sample_b64_sk @ [NL])) (replicate 32 NUL) (replicate 44 NUL) start))
     = start\<lparr>out := (out start)\<lparr>written := ''hello'' @ SIG_START @ hello_b64_sig @ SIG_END\<rparr>\<rparr>"
    using kurv_sign_ok[OF no_sys_malloc start_ok sample_sk_facts(1,2,3) refl refl,
            of toy_crypto "''hello''" "[NL]" "replicate 32 NUL" "replicate 44 NUL"]
    by (simp add: hello_signed hello_sig_facts start_def)
  show "length (SIG_START @ hello_b64_sig @ SIG_END)
          \<noteq> length SIG_START + 44 + 1 + 44 + length SIG_END"
    by (simp add: hello_sig_facts)
  have "length (SIG_START @ hello_b64_sig @ SIG_END)
          \<noteq> length (SIG_START @ take 44 hello_b64_sig @ [NL] @ drop 44 hello_b64_sig @ SIG_END)"
    by (simp add: hello_sig_facts)
  then show "SIG_START @ hello_b64_sig @ SIG_END
       \<noteq> SIG_START @ take 44 hello_b64_sig @ [NL] @ drop 44 hello_b64_sig @ SIG_END"
    by metis
qed

subsection \<open>Trim\<close>

lemma sample_sig_facts:
  "length sample_b64_sig = 88"
  "b64_validate std_codec sample_b64_sig = 0"
  "b64_decoded_size std_codec sample_b64_sig = 64"
  "b64_decode std_codec sample_b64_sig = sample_sig"
  "crypto_check toy_crypto sample_sig (crypto_sign_public_key toy_crypto sample_sk) ''hello'' \<noteq> 0"
  by code_simp+

lemma trim_found:
  "fp_to_buf sy inp = (Some msg, e) \<Longrightarrow> sig_from_buf cdc msg = Returns (Some (sg, n)) \<Longrightarrow>
   trim sy cdc inp p = Returns (XWRITE p msg n (\<lambda>p. (0, p)))"
  by (simp add: trim_def)

lemma detach_found:
  "read_file sy fp p = (Some msg, p1) \<Longrightarrow> find_signature cdc msg = Returns (Some (sg, n)) \<Longrightarrow>
   detach sy cdc fp p = Returns (Return 0, fwrite_stdout p1 msg n)"
  by (simp add: detach_def)

text \<open>
  C8. For every input that ends in a well-formed joined envelope, one whose 88
  characters the codec validates as 64 bytes, \<^verbatim>\<open>trim\<close> of ichi-sign and \<^verbatim>\<open>detach\<close> of
  kurv write exactly the message without the envelope and succeed. Neither function
  takes the signature primitive: no cryptographic check is made, and the witness
  strips an envelope whose signature is not a signature of the message.
\<close>

theorem trim_strips_without_checking:
  assumes "\<forall>n. malloc_ok sy n" and "\<not> wfaulty (out p)"
    and "length b64 = 88" and "b64_validate cdc b64 = 0" and "b64_decoded_size cdc b64 = 64"
  shows "trim sy cdc (fresh (m @ SIG_ARMOR_TOP @ take 44 b64 @ [NL] @ drop 44 b64 @ SIG_ARMOR_END)) p
           = Returns (0, p\<lparr>out := (out p)\<lparr>written := written (out p) @ m\<rparr>\<rparr>)
         \<and> detach sy cdc (fresh (m @ SIG_START @ b64 @ SIG_END)) p
           = Returns (Return 0, p\<lparr>out := (out p)\<lparr>written := written (out p) @ m\<rparr>\<rparr>)"
proof
  let ?buf = "m @ SIG_ARMOR_TOP @ take 44 b64 @ [NL] @ drop 44 b64 @ SIG_ARMOR_END"
  let ?kbuf = "m @ SIG_START @ b64 @ SIG_END"
  have h: "length (take 44 b64) = 44" "length (drop 44 b64) = 44"
    using assms(3) by simp_all
  have f: "sig_from_buf cdc ?buf = Returns (Some (b64_decode cdc b64, length m))"
    using sig_from_buf_envelope[OF h, of cdc m] assms(4,5) by simp
  show "trim sy cdc (fresh ?buf) p
          = Returns (0, p\<lparr>out := (out p)\<lparr>written := written (out p) @ m\<rparr>\<rparr>)"
    using trim_found[OF fp_to_buf_fresh[OF assms(1)] f, of p] assms(2)
    by (simp add: XWRITE_ok)
  have g: "find_signature cdc ?kbuf = Returns (Some (b64_decode cdc b64, length m))"
    using find_signature_envelope[OF assms(3), of cdc m] assms(4,5) by simp
  show "detach sy cdc (fresh ?kbuf) p
          = Returns (Return 0, p\<lparr>out := (out p)\<lparr>written := written (out p) @ m\<rparr>\<rparr>)"
    using detach_found[OF read_file_fresh[OF assms(1)] g, of p] assms(2)
    by (simp add: fwrite_stdout_ok)
qed

theorem trim_strips_without_checking_witness:
  "crypto_check toy_crypto (b64_decode std_codec sample_b64_sig)
     (crypto_sign_public_key toy_crypto sample_sk) ''hello'' \<noteq> 0
   \<and> trim no_sys std_codec
        (fresh (''hello'' @ SIG_ARMOR_TOP @ take 44 sample_b64_sig @ [NL] @ drop 44 sample_b64_sig
                @ SIG_ARMOR_END)) start
      = Returns (0, start\<lparr>out := (out start)\<lparr>written := written (out start) @ ''hello''\<rparr>\<rparr>)
   \<and> detach no_sys std_codec (fresh (''hello'' @ SIG_START @ sample_b64_sig @ SIG_END)) start
      = Returns (Return 0,
                 start\<lparr>out := (out start)\<lparr>written := written (out start) @ ''hello''\<rparr>\<rparr>)"
  using trim_strips_without_checking[OF no_sys_malloc start_ok sample_sig_facts(1,2,3),
          of "''hello''"]
    sample_sig_facts(4,5)
  by simp

subsection \<open>Reading a detached signature\<close>

text \<open>
  C9. The result of \<^verbatim>\<open>sig_from_file\<close> on a source of at least 88 bytes depends only on
  the first 88 bytes: it is the result on the source cut after them, the bytes that
  follow are left unread in the stream, and a source whose first 88 bytes are a valid
  encoded signature is accepted and decodes to the same 64 bytes whatever follows.
  \<^verbatim>\<open>read_exactly\<close> of kurv reads exactly the bytes asked for in the same way.
\<close>

theorem detached_signature_first_88_bytes:
  assumes "length b64 = 88"
  shows "fst (sig_from_file cdc (fresh (b64 @ rest)) p) = fst (sig_from_file cdc (fresh b64) p)
         \<and> fst (snd (sig_from_file cdc (fresh (b64 @ rest)) p))
             = \<lparr>pending = rest, eof_ind = False, err_ind = False, faulty = False\<rparr>
         \<and> (b64_validate cdc b64 = 0 \<and> b64_decoded_size cdc b64 = 64 \<longrightarrow>
              sig_from_file cdc (fresh (b64 @ rest)) p
              = (Some (b64_decode cdc b64),
                 \<lparr>pending = rest, eof_ind = False, err_ind = False, faulty = False\<rparr>, p))
         \<and> read_exactly 88 (fresh (b64 @ rest)) p
             = (0, b64, \<lparr>pending = rest, eof_ind = False, err_ind = False, faulty = False\<rparr>, p)"
  using assms
  by (simp add: sig_from_file_def utils_read_def read_exactly_def fread_def fresh_def sizes)

theorem detached_signature_first_88_bytes_witness:
  "length sample_b64_sig = 88
   \<and> b64_validate std_codec sample_b64_sig = 0 \<and> b64_decoded_size std_codec sample_b64_sig = 64
   \<and> sig_from_file std_codec (fresh (sample_b64_sig @ ''trailing content'')) start
      = (Some sample_sig,
         \<lparr>pending = ''trailing content'', eof_ind = False, err_ind = False, faulty = False\<rparr>,
         start)
   \<and> fst (sig_from_file std_codec (fresh (sample_b64_sig @ ''trailing content'')) start)
      = fst (sig_from_file std_codec (fresh sample_b64_sig) start)"
proof -
  note t = detached_signature_first_88_bytes[OF sample_sig_facts(1), of std_codec
             "''trailing content''" start]
  from t sample_sig_facts(2,3,4)
  have "sig_from_file std_codec (fresh (sample_b64_sig @ ''trailing content'')) start
      = (Some sample_sig,
         \<lparr>pending = ''trailing content'', eof_ind = False, err_ind = False, faulty = False\<rparr>,
         start)"
    by metis
  moreover from t
  have "fst (sig_from_file std_codec (fresh (sample_b64_sig @ ''trailing content'')) start)
      = fst (sig_from_file std_codec (fresh sample_b64_sig) start)"
    by (rule conjunct1)
  ultimately show ?thesis using sample_sig_facts(1,2,3) by blast
qed

subsection \<open>Output is written only after a successful check\<close>

lemma XWRITE_failed_out:
  assumes "XWRITE p buf n (\<lambda>q. (0, f q)) = (rv, p')" and "rv \<noteq> 0"
  shows "out p' = out p"
  using assms
  by (auto simp: XWRITE_def utils_write_def fwrite_def ERR_def split: if_splits)

lemma ERR_out [simp]: "out (ERR m p) = out p"
  by (simp add: ERR_def)

lemma keyring_loop_outcome:
  "keyring_loop cdc cr ctx msg n sg kd d es p = (rv, p') \<Longrightarrow>
   (rv \<noteq> 0 \<longrightarrow> out p' = out p)
   \<and> (rv = 0 \<longrightarrow>
        (\<exists>name content. name \<in> set es \<and> files d name = File content
           \<and> crypto_check cr sg (b64_decode cdc (take B64_KEY_SIZE content)) (take n msg) = 0))"
proof (induction es)
  case Nil
  then show ?case by auto
next
  case (Cons d_name rest)
  show ?case
  proof (cases "keyring_loop cdc cr ctx msg n sg kd d (d_name # rest) p
                  = keyring_loop cdc cr ctx msg n sg kd d rest p")
    case True
    with Cons show ?thesis by auto
  next
    case False
    then obtain content where c: "files d d_name = File content"
      and ok: "crypto_check cr sg (b64_decode cdc (take B64_KEY_SIZE content)) (take n msg) = 0"
      by (auto simp: Let_def split: if_splits inode.splits)
    from False c ok Cons.prems
    have r: "(rv, p') =
          (let p1 = ERR (good_signature_by
                           (kd @ (if cstr_at kd (strlen kd) = CHR ''/'' then [] else ''/'')
                            @ d_name)) p
           in if stream_output ctx then XWRITE p1 msg n (\<lambda>p. (0, p)) else (0, p1))"
      by (auto simp: Let_def split: if_splits inode.splits)
    have "rv \<noteq> 0 \<longrightarrow> out p' = out p"
      using r XWRITE_failed_out[of _ msg n "\<lambda>q. q" rv p']
      by (auto simp: Let_def split: if_splits)
    moreover have "\<exists>name content. name \<in> set (d_name # rest) \<and> files d name = File content
           \<and> crypto_check cr sg (b64_decode cdc (take B64_KEY_SIZE content)) (take n msg) = 0"
      using c ok by auto
    ultimately show ?thesis by blast
  qed
qed

lemma verify_keyring_outcome:
  assumes "verify_keyring sy cdc cr ctx msg n sg p = Returns (rv, p')"
  shows "(rv \<noteq> 0 \<longrightarrow> out p' = out p)
   \<and> (rv = 0 \<longrightarrow>
        (\<exists>kd d name content. getenv sy ''ICHI_SIGN_KEYRING'' = Some kd \<and> opendir sy kd = Some d
           \<and> name \<in> set (entries d) \<and> files d name = File content
           \<and> crypto_check cr sg (b64_decode cdc (take B64_KEY_SIZE content)) (take n msg) = 0))"
proof (cases "getenv sy ''ICHI_SIGN_KEYRING''")
  case None
  with assms show ?thesis by (auto simp: verify_keyring_def)
next
  case (Some kd)
  show ?thesis
  proof (cases "opendir sy kd")
    case None
    with Some assms show ?thesis by (simp add: verify_keyring_def dirfd_def)
  next
    case (Some d)
    show ?thesis
    proof (cases "dd_fd d < 0")
      case True
      with Some \<open>getenv sy ''ICHI_SIGN_KEYRING'' = Some kd\<close> assms show ?thesis
        by (auto simp: verify_keyring_def dirfd_def)
    next
      case False
      with Some \<open>getenv sy ''ICHI_SIGN_KEYRING'' = Some kd\<close> assms
      have "keyring_loop cdc cr ctx msg n sg kd d (entries d) p = (rv, p')"
        by (simp add: verify_keyring_def dirfd_def)
      from keyring_loop_outcome[OF this] Some \<open>getenv sy ''ICHI_SIGN_KEYRING'' = Some kd\<close>
      show ?thesis by blast
    qed
  qed
qed


lemma sig_from_file_proc:
  "sig_from_file cdc fp p = (r, fp', q) \<Longrightarrow> out q = out p \<and> (r \<noteq> None \<longrightarrow> q = p)"
  by (auto simp: sig_from_file_def utils_read_def split: prod.splits if_splits)

lemma verify_outcome:
  assumes "verify sy cdc cr ctx p = Returns (rv, p')"
  shows "(rv \<noteq> 0 \<longrightarrow> out p' = out p)
     \<and> (rv = 0 \<longrightarrow>
          (\<exists>msg e sg n key.
              fp_to_buf sy (input ctx) = (Some msg, e)
              \<and> (if detached ctx
                  then n = length msg
                       \<and> (\<exists>sfp. sig ctx = Some sfp \<and> fst (sig_from_file cdc sfp p) = Some sg)
                  else sig_from_buf cdc msg = Returns (Some (sg, n)))
              \<and> crypto_check cr sg key (take n msg) = 0
              \<and> (if keyring ctx
                  then (\<exists>kd d name content.
                          getenv sy ''ICHI_SIGN_KEYRING'' = Some kd \<and> opendir sy kd = Some d
                          \<and> name \<in> set (entries d) \<and> files d name = File content
                          \<and> key = b64_decode cdc (take B64_KEY_SIZE content))
                  else key = pk ctx)))"
proof -
  obtain r e where fb: "fp_to_buf sy (input ctx) = (r, e)" by fastforce
  show ?thesis
  proof (cases r)
    case None
    with fb assms show ?thesis by (auto simp: verify_def)
  next
    case (Some msg)
    define got where "got =
      (if detached ctx then
         (case sig ctx of
            None \<Rightarrow> Undefined
          | Some sfp \<Rightarrow>
              (case sig_from_file cdc sfp p of
                 (None, _, p') \<Rightarrow> Returns (Inl p')
               | (Some sg, _, p') \<Rightarrow> Returns (Inr (sg, length msg, p'))))
       else
         (case sig_from_buf cdc msg of
            Undefined \<Rightarrow> Undefined
          | Returns None \<Rightarrow> Returns (Inl (ERR ''malformed signature'' p))
          | Returns (Some (sg, new_size)) \<Rightarrow> Returns (Inr (sg, new_size, p))))"
    have v: "verify sy cdc cr ctx p =
          (case got of
             Undefined \<Rightarrow> Undefined
           | Returns (Inl p') \<Rightarrow> Returns (1, p')
           | Returns (Inr (sg, msg_size, p')) \<Rightarrow>
               if keyring ctx then verify_keyring sy cdc cr ctx msg msg_size sg p'
               else if crypto_check cr sg (pk ctx) (take msg_size msg) \<noteq> 0
               then Returns (1, ERR ''invalid signature'' p')
               else if stream_output ctx
               then Returns (XWRITE p' msg msg_size
                               (\<lambda>p. (0, ERR (good_signature_by (pk_fn ctx)) p)))
               else Returns (0, ERR (good_signature_by (pk_fn ctx)) p'))"
      unfolding got_def by (simp add: verify_def fb Some)
    have inl: "out q = out p" if "got = Returns (Inl q)" for q
      using that sig_from_file_proc[of cdc _ p]
      by (auto simp: got_def split: if_splits option.splits prod.splits outcome.splits)
    have inr: "q = p \<and> (if detached ctx
                  then n = length msg
                       \<and> (\<exists>sfp. sig ctx = Some sfp \<and> fst (sig_from_file cdc sfp p) = Some sg)
                  else sig_from_buf cdc msg = Returns (Some (sg, n)))"
      if "got = Returns (Inr (sg, n, q))" for sg n q
      using that sig_from_file_proc[of cdc _ p]
      by (auto simp: got_def split: if_splits option.splits prod.splits outcome.splits)
    show ?thesis
    proof (cases got)
      case Undefined
      with v assms show ?thesis by simp
    next
      case (Returns x)
      show ?thesis
      proof (cases x)
        case (Inl q)
        with Returns v assms inl[of q] show ?thesis by auto
      next
        case (Inr t)
        obtain sg n q where t: "t = (sg, n, q)" by (cases t) auto
        from inr[of sg n q] Returns Inr t
        have q: "q = p" and src: "if detached ctx
                  then n = length msg
                       \<and> (\<exists>sfp. sig ctx = Some sfp \<and> fst (sig_from_file cdc sfp p) = Some sg)
                  else sig_from_buf cdc msg = Returns (Some (sg, n))"
          by simp_all
        show ?thesis
        proof (cases "keyring ctx")
          case True
          with v Returns Inr t q assms
          have "verify_keyring sy cdc cr ctx msg n sg p = Returns (rv, p')" by simp
          from verify_keyring_outcome[OF this]
          have a: "rv \<noteq> 0 \<longrightarrow> out p' = out p"
            and b: "rv = 0 \<longrightarrow>
              (\<exists>kd d name content. getenv sy ''ICHI_SIGN_KEYRING'' = Some kd
                 \<and> opendir sy kd = Some d \<and> name \<in> set (entries d)
                 \<and> files d name = File content
                 \<and> crypto_check cr sg (b64_decode cdc (take B64_KEY_SIZE content)) (take n msg)
                     = 0)"
            by blast+
          show ?thesis
          proof (intro conjI impI)
            show "out p' = out p" if "rv \<noteq> 0" using a that by simp
          next
            assume "rv = 0"
            with b obtain kd d name content where
              k: "getenv sy ''ICHI_SIGN_KEYRING'' = Some kd" "opendir sy kd = Some d"
                "name \<in> set (entries d)" "files d name = File content"
                "crypto_check cr sg (b64_decode cdc (take B64_KEY_SIZE content)) (take n msg) = 0"
              by blast
            have "fp_to_buf sy (input ctx) = (Some msg, e)
              \<and> (if detached ctx
                  then n = length msg
                       \<and> (\<exists>sfp. sig ctx = Some sfp \<and> fst (sig_from_file cdc sfp p) = Some sg)
                  else sig_from_buf cdc msg = Returns (Some (sg, n)))
              \<and> crypto_check cr sg (b64_decode cdc (take B64_KEY_SIZE content)) (take n msg) = 0
              \<and> (if keyring ctx
                  then (\<exists>kd d name content'.
                          getenv sy ''ICHI_SIGN_KEYRING'' = Some kd \<and> opendir sy kd = Some d
                          \<and> name \<in> set (entries d) \<and> files d name = File content'
                          \<and> b64_decode cdc (take B64_KEY_SIZE content)
                              = b64_decode cdc (take B64_KEY_SIZE content'))
                  else b64_decode cdc (take B64_KEY_SIZE content) = pk ctx)"
              using fb Some src True k by auto
            then show "\<exists>msg e sg n key.
              fp_to_buf sy (input ctx) = (Some msg, e)
              \<and> (if detached ctx
                  then n = length msg
                       \<and> (\<exists>sfp. sig ctx = Some sfp \<and> fst (sig_from_file cdc sfp p) = Some sg)
                  else sig_from_buf cdc msg = Returns (Some (sg, n)))
              \<and> crypto_check cr sg key (take n msg) = 0
              \<and> (if keyring ctx
                  then (\<exists>kd d name content.
                          getenv sy ''ICHI_SIGN_KEYRING'' = Some kd \<and> opendir sy kd = Some d
                          \<and> name \<in> set (entries d) \<and> files d name = File content
                          \<and> key = b64_decode cdc (take B64_KEY_SIZE content))
                  else key = pk ctx)"
              by blast
          qed
        next
          case False
          show ?thesis
          proof (cases "crypto_check cr sg (pk ctx) (take n msg) \<noteq> 0")
            case True
            with False v Returns Inr t q assms show ?thesis by auto
          next
            case ok: False
            have 1: "rv \<noteq> 0 \<longrightarrow> out p' = out p"
              using False ok v Returns Inr t q assms
                XWRITE_failed_out[of p msg n "\<lambda>p. ERR (good_signature_by (pk_fn ctx)) p" rv p']
              by (auto split: if_splits)
            from fb Some src ok False 1 show ?thesis by (auto split: if_splits)
          qed
        qed
      qed
    qed
  qed
qed


lemma find_key_in_file_out:
  "find_key_in_file cdc fp bk p = (k, b, fp', q) \<Longrightarrow> out q = out p"
  by (auto simp: find_key_in_file_def read_exactly_def kurv_err_def Let_def
           split: prod.splits if_splits option.splits)

lemma read_file_out: "read_file sy fp p = (r, q) \<Longrightarrow> out q = out p"
  by (auto simp: read_file_def kurv_err_def split: if_splits option.splits prod.splits)

lemma die_out [simp]: "out (snd (die m p)) = out p" "fst (die m p) = Exit 1"
  by (simp_all add: die_def)

lemma errdie_out [simp]: "out (snd (errdie m p)) = out p" "fst (errdie m p) = Exit 1"
  by (simp_all add: errdie_def kurv_err_def)

lemma check_keyring_loop_outcome:
  "check_keyring_loop sy cdc cr sg msg n sid sog path bk es p = (st, q) \<Longrightarrow>
   (st \<noteq> Exit 0 \<longrightarrow> out q = out p)
   \<and> (st = Exit 0 \<longrightarrow>
        (\<exists>name pk_fp pa key. name \<in> set es \<and> fopen sy (path @ name) = Some pk_fp
           \<and> fst (find_key_in_file cdc pk_fp bk pa) = Some key
           \<and> crypto_check cr sg key (take n msg) = 0))"
proof (induction es arbitrary: p)
  case Nil
  then show ?case by (auto simp: die_def)
next
  case (Cons d_name rest)
  let ?skip = "\<lambda>p. check_keyring_loop sy cdc cr sg msg n sid sog path bk rest p"
  show ?case
  proof (cases "strcmp d_name ''.'' = 0 \<or> strcmp d_name ''..'' = 0 \<or> endswith d_name ''.pub'' \<noteq> 0")
    case True
    with Cons.prems have "?skip p = (st, q)" by simp
    from Cons.IH[OF this] show ?thesis by auto
  next
    case cand: False
    show ?thesis
    proof (cases "fopen sy (path @ d_name)")
      case None
      with cand Cons.prems have "?skip p = (st, q)" by simp
      from Cons.IH[OF this] show ?thesis by auto
    next
      case (Some pk_fp)
      obtain k b fp' p1 where f: "find_key_in_file cdc pk_fp bk p = (k, b, fp', p1)"
        by (cases "find_key_in_file cdc pk_fp bk p") auto
      have o: "out p1 = out p" using find_key_in_file_out[OF f] .
      show ?thesis
      proof (cases "k = None \<or> crypto_check cr sg (the k) (take n msg) \<noteq> 0")
        case True
        with cand Some f Cons.prems have "?skip p1 = (st, q)"
          by (auto split: option.splits)
        from Cons.IH[OF this] o show ?thesis by auto
      next
        case False
        then obtain key where k: "k = Some key" "crypto_check cr sg key (take n msg) = 0"
          by auto
        with cand Some f Cons.prems have "st = Exit 0" by (auto simp: Let_def)
        moreover have "\<exists>name pk_fp pa key. name \<in> set (d_name # rest)
           \<and> fopen sy (path @ name) = Some pk_fp
           \<and> fst (find_key_in_file cdc pk_fp bk pa) = Some key
           \<and> crypto_check cr sg key (take n msg) = 0"
          using Some f k by (intro exI[of _ d_name] exI[of _ pk_fp] exI[of _ p] exI[of _ key]) simp
        ultimately show ?thesis by blast
      qed
    qed
  qed
qed

lemma check_keyring_outcome:
  assumes "check_keyring sy cdc cr fp sid sog bk p = Returns (st, q)"
  shows "(st \<noteq> Exit 0 \<longrightarrow> out q = out p)
     \<and> (st = Exit 0 \<longrightarrow>
          (\<exists>msg sg n key kd d path name pk_fp pa.
              fst (read_file sy fp p) = Some msg
              \<and> find_signature cdc msg = Returns (Some (sg, n))
              \<and> crypto_check cr sg key (take n msg) = 0
              \<and> getenv sy ''KURV_KEYRING'' = Some kd \<and> opendir sy kd = Some d
              \<and> name \<in> set (entries d) \<and> fopen sy (path @ name) = Some pk_fp
              \<and> fst (find_key_in_file cdc pk_fp bk pa) = Some key))"
proof (cases "getenv sy ''KURV_KEYRING''")
  case None
  with assms show ?thesis by (auto simp: check_keyring_def die_def)
next
  case (Some kd)
  show ?thesis
  proof (cases "strlen kd = 0")
    case True
    with Some assms show ?thesis by (auto simp: check_keyring_def die_def)
  next
    case nonempty: False
    obtain r p1 where rf: "read_file sy fp p = (r, p1)" by fastforce
    have o1: "out p1 = out p" using read_file_out[OF rf] .
    show ?thesis
    proof (cases r)
      case None
      with Some nonempty rf assms o1 show ?thesis
        by (auto simp: check_keyring_def die_def Let_def)
    next
      case msg: (Some msg)
      have fs: "find_signature cdc msg \<noteq> Undefined" by (simp add: find_signature_eq Let_def)
      show ?thesis
      proof (cases "find_signature cdc msg")
        case Undefined
        with fs show ?thesis by simp
      next
        case (Returns x)
        show ?thesis
        proof (cases x)
          case None
          with Returns Some nonempty rf msg assms o1 show ?thesis
            by (auto simp: check_keyring_def die_def Let_def)
        next
          case found: (Some t)
          obtain sg n where t: "t = (sg, n)" by (cases t) auto
          show ?thesis
          proof (cases "malloc_ok sy (strlen kd + NAME_MAX + 2)")
            case False
            with found t Returns Some nonempty rf msg assms o1 show ?thesis
              by (auto simp: check_keyring_def errdie_def kurv_err_def Let_def)
          next
            case mem: True
            show ?thesis
            proof (cases "opendir sy kd")
              case None
              with mem found t Returns Some nonempty rf msg assms o1 show ?thesis
                by (auto simp: check_keyring_def errdie_def kurv_err_def Let_def)
            next
              case dir: (Some d)
              define path where
                "path = (if cstr_at kd (strlen kd - 1) \<noteq> CHR ''/'' then kd @ ''/'' else kd)"
              from dir mem found t Returns Some nonempty rf msg assms
              have "check_keyring_loop sy cdc cr sg msg n sid sog path bk (entries d) p1 = (st, q)"
                by (simp add: check_keyring_def Let_def path_def)
              from check_keyring_loop_outcome[OF this] o1
              have a: "st \<noteq> Exit 0 \<longrightarrow> out q = out p"
                and b: "st = Exit 0 \<longrightarrow>
                  (\<exists>name pk_fp pa key. name \<in> set (entries d)
                     \<and> fopen sy (path @ name) = Some pk_fp
                     \<and> fst (find_key_in_file cdc pk_fp bk pa) = Some key
                     \<and> crypto_check cr sg key (take n msg) = 0)"
                by auto
              show ?thesis
              proof (intro conjI impI)
                show "out q = out p" if "st \<noteq> Exit 0" using a that by simp
              next
                assume "st = Exit 0"
                with b obtain name pk_fp pa key where
                  "name \<in> set (entries d)" "fopen sy (path @ name) = Some pk_fp"
                  "fst (find_key_in_file cdc pk_fp bk pa) = Some key"
                  "crypto_check cr sg key (take n msg) = 0"
                  by blast
                then have "fst (read_file sy fp p) = Some msg
                  \<and> find_signature cdc msg = Returns (Some (sg, n))
                  \<and> crypto_check cr sg key (take n msg) = 0
                  \<and> getenv sy ''KURV_KEYRING'' = Some kd \<and> opendir sy kd = Some d
                  \<and> name \<in> set (entries d) \<and> fopen sy (path @ name) = Some pk_fp
                  \<and> fst (find_key_in_file cdc pk_fp bk pa) = Some key"
                  using rf msg Returns found t Some dir by simp
                then show "\<exists>msg sg n key kd d path name pk_fp pa.
                  fst (read_file sy fp p) = Some msg
                  \<and> find_signature cdc msg = Returns (Some (sg, n))
                  \<and> crypto_check cr sg key (take n msg) = 0
                  \<and> getenv sy ''KURV_KEYRING'' = Some kd \<and> opendir sy kd = Some d
                  \<and> name \<in> set (entries d) \<and> fopen sy (path @ name) = Some pk_fp
                  \<and> fst (find_key_in_file cdc pk_fp bk pa) = Some key"
                  by blast
              qed
            qed
          qed
        qed
      qed
    qed
  qed
qed

lemma check_outcome:
  assumes "check sy cdc cr fp pk_fp pk_fname sid sog bk p = Returns (st, q)"
  shows "(st \<noteq> Return 0 \<longrightarrow> out q = out p)
     \<and> (st = Return 0 \<longrightarrow>
          (\<exists>msg sg n key pa.
              fst (find_key_in_file cdc pk_fp bk p) = Some key
              \<and> fst (read_file sy fp pa) = Some msg
              \<and> find_signature cdc msg = Returns (Some (sg, n))
              \<and> crypto_check cr sg key (take n msg) = 0))"
proof -
  obtain k b fp' p1 where f: "find_key_in_file cdc pk_fp bk p = (k, b, fp', p1)"
    by (cases "find_key_in_file cdc pk_fp bk p") auto
  have o1: "out p1 = out p" using find_key_in_file_out[OF f] .
  obtain r p2 where rf: "read_file sy fp p1 = (r, p2)" by fastforce
  have o2: "out p2 = out p" using read_file_out[OF rf] o1 by simp
  show ?thesis
  proof (cases "k = None \<or> r = None \<or> find_signature cdc (the r) = Returns None
                \<or> find_signature cdc (the r) = Undefined")
    case True
    with f rf o1 o2 assms show ?thesis
      by (auto simp: check_def die_def split: option.splits outcome.splits)
  next
    case False
    then obtain key msg sg n where
      k: "k = Some key" "r = Some msg" "find_signature cdc msg = Returns (Some (sg, n))"
      by (cases k; cases r; cases "find_signature cdc (the r)") auto
    show ?thesis
    proof (cases "crypto_check cr sg key (take n msg) \<noteq> 0")
      case True
      with k f rf o2 assms show ?thesis by (auto simp: check_def die_def)
    next
      case False
      with k f rf have "fst (find_key_in_file cdc pk_fp bk p) = Some key
              \<and> fst (read_file sy fp p1) = Some msg
              \<and> find_signature cdc msg = Returns (Some (sg, n))
              \<and> crypto_check cr sg key (take n msg) = 0"
        by simp
      then have "\<exists>msg sg n key pa.
              fst (find_key_in_file cdc pk_fp bk p) = Some key
              \<and> fst (read_file sy fp pa) = Some msg
              \<and> find_signature cdc msg = Returns (Some (sg, n))
              \<and> crypto_check cr sg key (take n msg) = 0"
        by blast
      moreover from False k f rf assms have "st = Return 0"
        by (auto simp: check_def Let_def)
      ultimately show ?thesis by blast
    qed
  qed
qed

subsection \<open>Runs of the verifying functions\<close>

lemma verify_joined:
  assumes "\<forall>n. malloc_ok sy n" and "input ctx = fresh msg" and "\<not> detached ctx"
    and "sig_from_buf cdc msg = Returns r"
  shows "verify sy cdc cr ctx p =
          (case r of
             None \<Rightarrow> Returns (1, ERR ''malformed signature'' p)
           | Some (sg, n) \<Rightarrow>
               if keyring ctx then verify_keyring sy cdc cr ctx msg n sg p
               else if crypto_check cr sg (pk ctx) (take n msg) \<noteq> 0
               then Returns (1, ERR ''invalid signature'' p)
               else if stream_output ctx
               then Returns (XWRITE p msg n (\<lambda>p. (0, ERR (good_signature_by (pk_fn ctx)) p)))
               else Returns (0, ERR (good_signature_by (pk_fn ctx)) p))"
  using assms by (simp add: verify_def fp_to_buf_fresh split: option.splits)

lemma verify_keyring_open:
  assumes "getenv sy ''ICHI_SIGN_KEYRING'' = Some kd" and "opendir sy kd = Some d"
    and "0 \<le> dd_fd d"
  shows "verify_keyring sy cdc cr ctx msg n sg p
           = Returns (keyring_loop cdc cr ctx msg n sg kd d (entries d) p)"
  using assms by (simp add: verify_keyring_def dirfd_def)

lemma check_keyring_open:
  assumes "\<forall>n. malloc_ok sy n" and "getenv sy ''KURV_KEYRING'' = Some kd" and "kd \<noteq> []"
    and "opendir sy kd = Some d" and "find_signature cdc msg = Returns (Some (sg, n))"
  shows "check_keyring sy cdc cr (fresh msg) sid sog bk p
           = Returns (check_keyring_loop sy cdc cr sg msg n sid sog
                        (if cstr_at kd (strlen kd - 1) \<noteq> CHR ''/'' then kd @ ''/'' else kd)
                        bk (entries d) p)"
  using assms by (simp add: check_keyring_def read_file_fresh strlen_def Let_def)

lemma check_open:
  assumes "\<forall>n. malloc_ok sy n"
    and "length kb64 = 44" "b64_validate cdc kb64 = 0" "b64_decoded_size cdc kb64 = 32"
    and "find_signature cdc msg = Returns (Some (sg, n))"
  shows "check sy cdc cr (fresh msg) (fresh (kb64 @ rest)) pk_fname sid sog bk p =
           (if crypto_check cr sg (b64_decode cdc kb64) (take n msg) \<noteq> 0
            then Returns (die ''invalid signature.'' p)
            else Returns (Return 0,
                   (let p3 = (if sid then fwrite_stdout p (pk_fname @ [NL]) (length pk_fname + 1)
                              else p)
                    in if sog then fwrite_stdout p3 msg n else p3)))"
  using assms by (simp add: check_def find_key_in_file_ok read_file_fresh Let_def)

lemma sample_found:
  "sig_from_buf std_codec ichi_signed_hello = Returns (Some (hello_sig, 5))"
  "sig_from_buf std_codec ichi_forged_hello = Returns (Some (sample_sig, 5))"
  "find_signature std_codec kurv_signed_hello = Returns (Some (hello_sig, 5))"
  "find_signature std_codec kurv_forged_hello = Returns (Some (sample_sig, 5))"
proof -
  have h: "length (take 44 hello_b64_sig) = 44" "length (drop 44 hello_b64_sig) = 44"
    "length (take 44 sample_b64_sig) = 44" "length (drop 44 sample_b64_sig) = 44"
    by (simp_all add: hello_sig_facts sample_sig_facts)
  show "sig_from_buf std_codec ichi_signed_hello = Returns (Some (hello_sig, 5))"
    unfolding ichi_signed_hello_def
    using sig_from_buf_envelope[OF h(1,2), of std_codec "''hello''"]
    by (simp add: hello_sig_facts)
  show "sig_from_buf std_codec ichi_forged_hello = Returns (Some (sample_sig, 5))"
    unfolding ichi_forged_hello_def
    using sig_from_buf_envelope[OF h(3,4), of std_codec "''hello''"]
    by (simp add: sample_sig_facts)
  show "find_signature std_codec kurv_signed_hello = Returns (Some (hello_sig, 5))"
    unfolding kurv_signed_hello_def
    using find_signature_envelope[OF hello_sig_facts(3), of std_codec "''hello''"]
    by (simp add: hello_sig_facts)
  show "find_signature std_codec kurv_forged_hello = Returns (Some (sample_sig, 5))"
    unfolding kurv_forged_hello_def
    using find_signature_envelope[OF sample_sig_facts(1), of std_codec "''hello''"]
    by (simp add: sample_sig_facts)
qed

lemma sample_sys_facts:
  "\<forall>n. malloc_ok ichi_sys n" "\<forall>n. malloc_ok kurv_sys n"
  "getenv ichi_sys ''ICHI_SIGN_KEYRING'' = Some ''/keys''"
  "opendir ichi_sys ''/keys'' = Some ichi_keys"
  "getenv kurv_sys ''KURV_KEYRING'' = Some ''/keys''"
  "opendir kurv_sys ''/keys'' = Some kurv_keys"
  "0 \<le> dd_fd ichi_keys"
  by (simp_all add: ichi_sys_def kurv_sys_def a_sys_def ichi_keys_def)

lemma other_pk_facts:
  "length other_b64_pk = 44"
  "b64_validate std_codec other_b64_pk = 0"
  "b64_decoded_size std_codec other_b64_pk = 32"
  "crypto_check toy_crypto hello_sig (b64_decode std_codec other_b64_pk) (take 5 ''hello'') \<noteq> 0"
  "crypto_check toy_crypto hello_sig (replicate 32 (CHR ''z'')) (take 5 ''hello'') \<noteq> 0"
  by code_simp+

lemma sample_exhausted:
  "keyring_loop std_codec toy_crypto (keyring_ctx ichi_forged_hello True) ichi_forged_hello 5
     sample_sig ''/keys'' ichi_keys (entries ichi_keys) start = (1, start)"
  "check_keyring_loop kurv_sys std_codec toy_crypto sample_sig kurv_forged_hello 5 True True
     ''/keys/'' (replicate 44 NUL) (entries kurv_keys) start
     = (Exit 1, start\<lparr>err := [''kurv: fread'', ''cannot find a signer.'']\<rparr>)"
  by code_simp+

subsection \<open>No output before the verification has succeeded\<close>

text \<open>
  C10. Whatever the flags, the input and the system are, a run of \<^verbatim>\<open>verify\<close> of
  ichi-sign, or of \<^verbatim>\<open>check\<close> or \<^verbatim>\<open>check_keyring\<close> of kurv, that does not end in success
  leaves the output stream as it was: a malformed envelope, an invalid signature and
  a keyring without a matching key write nothing. A run ends in success only when
  \<^verbatim>\<open>crypto_check\<close> has accepted the signature found in the input, for the message that
  was read and the key given or a key of the keyring, so the message is written only
  after that check.
\<close>

theorem no_output_before_verification:
  "(verify sy cdc cr ctx p = Returns (rv, p') \<longrightarrow>
      (rv \<noteq> 0 \<longrightarrow> out p' = out p)
      \<and> (rv = 0 \<longrightarrow>
          (\<exists>msg e sg n key.
              fp_to_buf sy (input ctx) = (Some msg, e)
              \<and> (if detached ctx
                  then n = length msg
                       \<and> (\<exists>sfp. sig ctx = Some sfp \<and> fst (sig_from_file cdc sfp p) = Some sg)
                  else sig_from_buf cdc msg = Returns (Some (sg, n)))
              \<and> crypto_check cr sg key (take n msg) = 0
              \<and> (if keyring ctx
                  then (\<exists>kd d name content.
                          getenv sy ''ICHI_SIGN_KEYRING'' = Some kd \<and> opendir sy kd = Some d
                          \<and> name \<in> set (entries d) \<and> files d name = File content
                          \<and> key = b64_decode cdc (take B64_KEY_SIZE content))
                  else key = pk ctx))))
   \<and> (check sy cdc cr fp pk_fp pk_fname sid sog bk p = Returns (st, q) \<longrightarrow>
      (st \<noteq> Return 0 \<longrightarrow> out q = out p)
      \<and> (st = Return 0 \<longrightarrow>
          (\<exists>msg sg n key pa.
              fst (find_key_in_file cdc pk_fp bk p) = Some key
              \<and> fst (read_file sy fp pa) = Some msg
              \<and> find_signature cdc msg = Returns (Some (sg, n))
              \<and> crypto_check cr sg key (take n msg) = 0)))
   \<and> (check_keyring sy cdc cr fp sid sog bk p = Returns (st', q') \<longrightarrow>
      (st' \<noteq> Exit 0 \<longrightarrow> out q' = out p)
      \<and> (st' = Exit 0 \<longrightarrow>
          (\<exists>msg sg n key kd d path name pk_fp pa.
              fst (read_file sy fp p) = Some msg
              \<and> find_signature cdc msg = Returns (Some (sg, n))
              \<and> crypto_check cr sg key (take n msg) = 0
              \<and> getenv sy ''KURV_KEYRING'' = Some kd \<and> opendir sy kd = Some d
              \<and> name \<in> set (entries d) \<and> fopen sy (path @ name) = Some pk_fp
              \<and> fst (find_key_in_file cdc pk_fp bk pa) = Some key)))"
  apply (intro conjI)
    apply (rule impI, erule verify_outcome)
   apply (rule impI, erule check_outcome)
  apply (rule impI, erule check_keyring_outcome)
  done


theorem no_output_before_verification_witness:
  "verify ichi_sys std_codec toy_crypto (keyring_ctx ''hello'' True) start
     = Returns (1, ERR ''malformed signature'' start)
   \<and> out (ERR ''malformed signature'' start) = out start
   \<and> verify ichi_sys std_codec toy_crypto
        (key_ctx ichi_signed_hello (replicate 32 (CHR ''z'')) True) start
     = Returns (1, ERR ''invalid signature'' start)
   \<and> out (ERR ''invalid signature'' start) = out start
   \<and> verify ichi_sys std_codec toy_crypto (keyring_ctx ichi_forged_hello True) start
     = Returns (1, start)
   \<and> check kurv_sys std_codec toy_crypto (fresh kurv_signed_hello) (fresh (other_b64_pk @ [NL]))
        ''other.pub'' True True (replicate 44 NUL) start
     = Returns (die ''invalid signature.'' start)
   \<and> out (snd (die ''invalid signature.'' start)) = out start
   \<and> check_keyring kurv_sys std_codec toy_crypto (fresh kurv_forged_hello) True True
        (replicate 44 NUL) start
     = Returns (Exit 1, start\<lparr>err := [''kurv: fread'', ''cannot find a signer.'']\<rparr>)
   \<and> out (start\<lparr>err := [''kurv: fread'', ''cannot find a signer.'']\<rparr>) = out start"
proof -
  have short: "sig_from_buf std_codec ''hello'' = Returns None"
    by (simp add: sig_from_buf_def sizes)
  have r1: "verify ichi_sys std_codec toy_crypto (keyring_ctx ''hello'' True) start
              = Returns (1, ERR ''malformed signature'' start)"
    using verify_joined[OF sample_sys_facts(1) _ _ short, of "keyring_ctx ''hello'' True"]
    by (simp add: keyring_ctx_def)
  have r2: "verify ichi_sys std_codec toy_crypto
              (key_ctx ichi_signed_hello (replicate 32 (CHR ''z'')) True) start
              = Returns (1, ERR ''invalid signature'' start)"
    using verify_joined[OF sample_sys_facts(1) _ _ sample_found(1),
            of "key_ctx ichi_signed_hello (replicate 32 (CHR ''z'')) True" toy_crypto start]
      other_pk_facts(5)
    by (simp add: key_ctx_def ichi_signed_hello_def)
  have r3: "verify ichi_sys std_codec toy_crypto (keyring_ctx ichi_forged_hello True) start
              = Returns (1, start)"
    using verify_joined[OF sample_sys_facts(1) _ _ sample_found(2),
            of "keyring_ctx ichi_forged_hello True" toy_crypto start]
      verify_keyring_open[OF sample_sys_facts(3,4,7), of std_codec toy_crypto
            "keyring_ctx ichi_forged_hello True" ichi_forged_hello 5 sample_sig start]
      sample_exhausted(1)
    by (simp add: keyring_ctx_def)
  have r4: "check kurv_sys std_codec toy_crypto (fresh kurv_signed_hello)
              (fresh (other_b64_pk @ [NL])) ''other.pub'' True True (replicate 44 NUL) start
              = Returns (die ''invalid signature.'' start)"
    using check_open[OF sample_sys_facts(2) other_pk_facts(1,2,3) sample_found(3),
            of toy_crypto "[NL]" "''other.pub''" True True "replicate 44 NUL" start]
      other_pk_facts(4)
    by (simp add: kurv_signed_hello_def)
  have r5: "check_keyring kurv_sys std_codec toy_crypto (fresh kurv_forged_hello) True True
              (replicate 44 NUL) start
              = Returns (Exit 1, start\<lparr>err := [''kurv: fread'', ''cannot find a signer.'']\<rparr>)"
    using check_keyring_open[OF sample_sys_facts(2,5) _ sample_sys_facts(6) sample_found(4),
            of toy_crypto True True "replicate 44 NUL" start]
      sample_exhausted(2)
    by (simp add: cstr_at_def strlen_def)
  note t1 = no_output_before_verification[of ichi_sys std_codec toy_crypto
              "keyring_ctx ''hello'' True" start 1 "ERR ''malformed signature'' start"]
  note t2 = no_output_before_verification[of ichi_sys std_codec toy_crypto
              "key_ctx ichi_signed_hello (replicate 32 (CHR ''z'')) True" start 1
              "ERR ''invalid signature'' start"
              "fresh kurv_signed_hello" "fresh (other_b64_pk @ [NL])" "''other.pub''" True True
              "replicate 44 NUL" "Exit 1" "snd (die ''invalid signature.'' start)"]
  note t3 = no_output_before_verification[of kurv_sys std_codec toy_crypto _ start _ _
              "fresh kurv_signed_hello" "fresh (other_b64_pk @ [NL])" "''other.pub''" True True
              "replicate 44 NUL" "Exit 1" "snd (die ''invalid signature.'' start)"]
  note t4 = no_output_before_verification[of kurv_sys std_codec toy_crypto _ start _ _
              "fresh kurv_forged_hello" _ _ True True
              "replicate 44 NUL" _ _ "Exit 1"
              "start\<lparr>err := [''kurv: fread'', ''cannot find a signer.'']\<rparr>"]
  have o1: "out (ERR ''malformed signature'' start) = out start"
    using t1 r1 by simp
  have o2: "out (ERR ''invalid signature'' start) = out start"
    using t2 r2 by simp
  have o4: "out (snd (die ''invalid signature.'' start)) = out start"
    using t3 r4 by (simp add: die_def)
  have o5: "out (start\<lparr>err := [''kurv: fread'', ''cannot find a signer.'']\<rparr>) = out start"
    using t4 r5 by simp
  show ?thesis using r1 r2 r3 r4 r5 o1 o2 o4 o5 by blast
qed

subsection \<open>The keyring scan\<close>

lemma ends_with_suffix:
  "(length sfx \<le> length name \<and> drop (length name - length sfx) name = sfx) \<longleftrightarrow> suffix sfx name"
  by (auto simp: suffix_def) (metis append_take_drop_id)

lemma ichi_suffix_test:
  "(strlen name \<ge> 9 \<and> strcmp (drop (strlen name - 9) name) ''.sign.pub'' = 0)
     \<longleftrightarrow> suffix ''.sign.pub'' name"
proof -
  have l: "length ''.sign.pub'' = 9" by simp
  show ?thesis
    using ends_with_suffix[of "''.sign.pub''" name] unfolding l
    by (auto simp: strlen_def strcmp_def)
qed

lemma endswith_suffix: "endswith src sfx = 0 \<longleftrightarrow> suffix sfx src"
proof (cases "length src < length sfx")
  case True
  then show ?thesis by (auto simp: endswith_def strlen_def Let_def suffix_def)
next
  case False
  then have "memcmp src (length src - length sfx) sfx (length sfx)
               = Some (if drop (length src - length sfx) src = sfx then 0 else 1)"
    using memcmp_eq[of "length src - length sfx" sfx src] by simp
  with False show ?thesis
    using ends_with_suffix[of sfx src] by (simp add: endswith_def strlen_def Let_def)
qed

lemma kurv_suffix_test:
  "\<not> (strcmp name ''.'' = 0 \<or> strcmp name ''..'' = 0 \<or> endswith name ''.pub'' \<noteq> 0)
     \<longleftrightarrow> suffix ''.pub'' name"
  by (auto simp: endswith_suffix strcmp_def suffix_def)

lemma keyring_loop_first_match:
  "keyring_loop cdc cr ctx msg n sg kd d es p =
     (case first_match ''.sign.pub'' (ichi_loads cdc d)
             (\<lambda>key. crypto_check cr sg key (take n msg) = 0) es of
        None \<Rightarrow> (1, p)
      | Some name \<Rightarrow>
          (let p1 = ERR (good_signature_by (kd @ ''/'' @ name)) p
           in if stream_output ctx then XWRITE p1 msg n (\<lambda>p. (0, p)) else (0, p1)))"
proof (induction es)
  case Nil
  then show ?case by (simp add: first_match_def candidate_matches_def)
next
  case (Cons d_name rest)
  let ?skip = "keyring_loop cdc cr ctx msg n sg kd d rest p"
  let ?test = "strlen d_name \<ge> 9 \<and> strcmp (drop (strlen d_name - 9) d_name) ''.sign.pub'' = 0"
  have nul: "(cstr_at kd (strlen kd) = CHR ''/'') = False"
    by (simp add: cstr_at_def strlen_def NUL_def)
  show ?case
  proof (cases "suffix ''.sign.pub'' d_name")
    case False
    then have nt: "?test = False" using ichi_suffix_test[of d_name] by simp
    have "keyring_loop cdc cr ctx msg n sg kd d (d_name # rest) p = ?skip"
      by (simp only: keyring_loop.simps nt if_False)
    with False Cons show ?thesis by (simp add: first_match_def candidate_matches_def)
  next
    case True
    then have t: "?test = True" using ichi_suffix_test[of d_name] by simp
    have step: "keyring_loop cdc cr ctx msg n sg kd d (d_name # rest) p =
        (case files d d_name of
           Absent \<Rightarrow> ?skip
         | Unreadable \<Rightarrow> ?skip
         | File content \<Rightarrow>
             let b64_pk = take B64_KEY_SIZE content in
             if length b64_pk < B64_KEY_SIZE
                \<or> b64_validate cdc b64_pk \<noteq> 0
                \<or> b64_decoded_size cdc b64_pk \<noteq> 32
             then ?skip
             else
               let pk = b64_decode cdc b64_pk in
               if crypto_check cr sg pk (take n msg) = 0 then
                 (let p1 = ERR (good_signature_by (kd @ ''/'' @ d_name)) p
                  in if stream_output ctx then XWRITE p1 msg n (\<lambda>p. (0, p))
                     else (0, p1))
               else ?skip)"
      by (simp only: keyring_loop.simps t if_True nul if_False)
    show ?thesis
    proof (cases "ichi_loads cdc d d_name")
      case None
      then have "keyring_loop cdc cr ctx msg n sg kd d (d_name # rest) p = ?skip"
        unfolding step
        by (auto simp: ichi_loads_def sizes Let_def split: inode.splits if_splits)
      with None True Cons show ?thesis by (simp add: first_match_def candidate_matches_def)
    next
      case (Some key)
      then obtain content where c: "files d d_name = File content" "44 \<le> length content"
        "b64_validate cdc (take 44 content) = 0" "b64_decoded_size cdc (take 44 content) = 32"
        "key = b64_decode cdc (take 44 content)"
        by (auto simp: ichi_loads_def split: inode.splits if_splits)
      show ?thesis
      proof (cases "crypto_check cr sg key (take n msg) = 0")
        case ok: True
        with c have "keyring_loop cdc cr ctx msg n sg kd d (d_name # rest) p =
                 (let p1 = ERR (good_signature_by (kd @ ''/'' @ d_name)) p
                  in if stream_output ctx then XWRITE p1 msg n (\<lambda>p. (0, p))
                     else (0, p1))"
          unfolding step by (simp add: sizes Let_def)
        with ok True Some show ?thesis by (simp add: first_match_def candidate_matches_def)
      next
        case no: False
        with c have "keyring_loop cdc cr ctx msg n sg kd d (d_name # rest) p = ?skip"
          unfolding step by (simp add: sizes Let_def)
        with no True Some Cons show ?thesis by (simp add: first_match_def candidate_matches_def)
      qed
    qed
  qed
qed


lemma find_key_in_file_loads:
  assumes "fopen sy (path @ name) = Some fp"
  shows "find_key_in_file cdc fp bk p =
           (kurv_loads sy cdc path name,
            fst (snd (find_key_in_file cdc fp bk p)),
            fst (snd (snd (find_key_in_file cdc fp bk p))),
            p\<lparr>err := err p @ (if length (fst (fread fp 44)) \<noteq> 44 then [''kurv: fread'']
                                  else [])\<rparr>)"
  using assms
  by (auto simp: find_key_in_file_def read_exactly_def kurv_loads_def find_key_def
        decode_exactly_def kurv_err_def sizes Let_def split: prod.splits)

lemma check_keyring_loop_first_match:
  "check_keyring_loop sy cdc cr sg msg n sid sog path bk es p =
     (let accepts = (\<lambda>key. crypto_check cr sg key (take n msg) = 0);
          p' = p\<lparr>err := err p @ kurv_short_reads sy path
                                   (scanned_before ''.pub'' (kurv_loads sy cdc path) accepts es)\<rparr>
      in case first_match ''.pub'' (kurv_loads sy cdc path) accepts es of
           None \<Rightarrow> die ''cannot find a signer.'' p'
         | Some name \<Rightarrow>
             (Exit 0,
              (let p1 = (if sid then fwrite_stdout p' (name @ [NL]) (length name + 1) else p')
               in if sog then fwrite_stdout p1 msg n else p1)))"
proof (induction es arbitrary: p)
  case Nil
  then show ?case
    by (simp add: first_match_def scanned_before_def kurv_short_reads_def)
next
  case (Cons d_name rest)
  let ?acc = "\<lambda>key. crypto_check cr sg key (take n msg) = 0"
  let ?skip = "\<lambda>p. check_keyring_loop sy cdc cr sg msg n sid sog path bk rest p"
  let ?test = "strcmp d_name ''.'' = 0 \<or> strcmp d_name ''..'' = 0 \<or> endswith d_name ''.pub'' \<noteq> 0"
  show ?case
  proof (cases "suffix ''.pub'' d_name")
    case False
    then have nt: "?test = True" using kurv_suffix_test[of d_name] by simp
    have eq: "check_keyring_loop sy cdc cr sg msg n sid sog path bk (d_name # rest) p = ?skip p"
      by (simp only: check_keyring_loop.simps nt if_True)
    show ?thesis
      unfolding eq Cons using False
      by (simp add: first_match_def scanned_before_def candidate_matches_def
            kurv_short_reads_def Let_def split: option.split)
  next
    case True
    then have t: "?test = False" using kurv_suffix_test[of d_name] by simp
    have step: "check_keyring_loop sy cdc cr sg msg n sid sog path bk (d_name # rest) p =
        (case fopen sy (path @ d_name) of
           None \<Rightarrow> ?skip p
         | Some pk_fp \<Rightarrow>
             (case find_key_in_file cdc pk_fp bk p of
                (None, _, _, p') \<Rightarrow> ?skip p'
              | (Some pkey, _, _, p') \<Rightarrow>
                  if crypto_check cr sg pkey (take n msg) \<noteq> 0 then ?skip p'
                  else
                    (let p1 = (if sid
                               then fwrite_stdout p' (d_name @ [NL]) (length d_name + 1)
                               else p');
                         p2 = (if sog then fwrite_stdout p1 msg n else p1)
                     in (Exit 0, p2))))"
      by (simp only: check_keyring_loop.simps t if_False)
    show ?thesis
    proof (cases "fopen sy (path @ d_name)")
      case None
      then have eq: "check_keyring_loop sy cdc cr sg msg n sid sog path bk (d_name # rest) p
                       = ?skip p"
        unfolding step by simp
      have nl: "kurv_loads sy cdc path d_name = None"
        using None by (simp add: kurv_loads_def)
      show ?thesis
        unfolding eq Cons using None True nl
        by (simp add: first_match_def scanned_before_def candidate_matches_def
              kurv_short_reads_def Let_def split: option.split)
    next
      case (Some pk_fp)
      let ?diag = "if length (fst (fread pk_fp 44)) \<noteq> 44 then [''kurv: fread''] else []"
      let ?q = "p\<lparr>err := err p @ ?diag\<rparr>"
      obtain b fp' where f: "find_key_in_file cdc pk_fp bk p
                               = (kurv_loads sy cdc path d_name, b, fp', ?q)"
        using find_key_in_file_loads[OF Some, of cdc bk p] by blast
      show ?thesis
      proof (cases "kurv_loads sy cdc path d_name")
        case None
        have eq: "check_keyring_loop sy cdc cr sg msg n sid sog path bk (d_name # rest) p
                    = ?skip ?q"
          unfolding step using Some None f by simp
        show ?thesis
          unfolding eq Cons using None True Some
          by (simp add: first_match_def scanned_before_def candidate_matches_def
                kurv_short_reads_def Let_def split: option.split)
      next
        case key: (Some key)
        then have full: "length (fst (fread pk_fp 44)) = 44"
          using Some by (auto simp: kurv_loads_def Let_def split: if_splits)
        then have q: "?q = p" by simp
        show ?thesis
        proof (cases "crypto_check cr sg key (take n msg) = 0")
          case no: False
          have eq: "check_keyring_loop sy cdc cr sg msg n sid sog path bk (d_name # rest) p
                      = ?skip p"
            unfolding step using Some key no q f by simp
          show ?thesis
            unfolding eq Cons using no key True Some full
            by (simp add: first_match_def scanned_before_def candidate_matches_def
                  kurv_short_reads_def Let_def split: option.split)
        next
          case ok: True
          have eq: "check_keyring_loop sy cdc cr sg msg n sid sog path bk (d_name # rest) p =
                  (Exit 0,
                   (let p1 = (if sid then fwrite_stdout p (d_name @ [NL]) (length d_name + 1)
                              else p)
                    in if sog then fwrite_stdout p1 msg n else p1))"
            unfolding step using Some key ok q f by (simp add: Let_def)
          show ?thesis
            unfolding eq using ok key True
            by (simp add: first_match_def scanned_before_def candidate_matches_def
                  kurv_short_reads_def Let_def split: option.split)
        qed
      qed
    qed
  qed
qed


lemma sample_scans:
  "first_match ''.sign.pub'' (ichi_loads std_codec ichi_keys)
     (\<lambda>key. crypto_check toy_crypto hello_sig key (take 5 ichi_signed_hello) = 0)
     (entries ichi_keys) = Some ''alice.sign.pub''"
  "first_match ''.pub'' (kurv_loads kurv_sys std_codec ''/keys/'')
     (\<lambda>key. crypto_check toy_crypto hello_sig key (take 5 kurv_signed_hello) = 0)
     (entries kurv_keys) = Some ''alice.pub''"
  "kurv_short_reads kurv_sys ''/keys/''
     (scanned_before ''.pub'' (kurv_loads kurv_sys std_codec ''/keys/'')
        (\<lambda>key. crypto_check toy_crypto hello_sig key (take 5 kurv_signed_hello) = 0)
        (entries kurv_keys)) = [''kurv: fread'']"
  by code_simp+


text \<open>
  The scan of ichi-sign is the first-match search of the specification, and so are
  the status and the output of the scan of kurv: exactly the entries whose names end
  in the suffix are considered, an entry that does not load as a public key or does
  not verify is passed over without ending the scan, the first entry that verifies
  ends it, and without a match the result is failure.
\<close>

lemma verify_keyring_first_match:
  assumes "getenv sy ''ICHI_SIGN_KEYRING'' = Some kd" and "opendir sy kd = Some d"
    and "0 \<le> dd_fd d"
  shows "verify_keyring sy cdc cr ctx msg n sg p =
        Returns
          (case first_match ''.sign.pub'' (ichi_loads cdc d)
                  (\<lambda>key. crypto_check cr sg key (take n msg) = 0) (entries d) of
             None \<Rightarrow> (1, p)
           | Some name \<Rightarrow>
               (let p1 = ERR (good_signature_by (kd @ ''/'' @ name)) p
                in if stream_output ctx then XWRITE p1 msg n (\<lambda>p. (0, p)) else (0, p1)))"
proof -
  have "verify_keyring sy cdc cr ctx msg n sg p
          = Returns (keyring_loop cdc cr ctx msg n sg kd d (entries d) p)"
    using assms by (simp add: verify_keyring_def dirfd_def)
  then show ?thesis by (simp only: keyring_loop_first_match)
qed

lemma fwrite_stdout_err [simp]:
  "out (fwrite_stdout (p\<lparr>err := e\<rparr>) buf n) = out (fwrite_stdout p buf n)"
  by (simp add: fwrite_stdout_def)

lemma check_keyring_loop_status_and_output:
  assumes "check_keyring_loop sy cdc cr sg msg n sid sog path bk es p = (st, q)"
  shows "(case first_match ''.pub'' (kurv_loads sy cdc path)
                 (\<lambda>key. crypto_check cr sg key (take n msg) = 0) es of
            None \<Rightarrow> st = Exit 1 \<and> out q = out p
          | Some name \<Rightarrow>
              st = Exit 0
              \<and> out q = out (let p1 = (if sid then fwrite_stdout p (name @ [NL]) (length name + 1)
                                        else p)
                              in if sog then fwrite_stdout p1 msg n else p1))"
  using assms unfolding check_keyring_loop_first_match
  by (auto simp: Let_def die_def fwrite_stdout_def split: option.splits)

text \<open>
  C1. The claim holds for ichi-sign and for what kurv reports, but the scan of kurv
  does not skip every failing candidate silently: \<^verbatim>\<open>check_keyring\<close> loads a candidate
  with \<^verbatim>\<open>find_key_in_file\<close>, whose \<^verbatim>\<open>read_exactly\<close> prints \<^verbatim>\<open>kurv: fread\<close> on the standard
  error stream when the file holds fewer than 44 bytes. On the sample keyring, which
  holds a candidate of three bytes before the key that verifies, kurv finds the key,
  reports it and the message and exits with status 0, with that message left on the
  standard error stream; on the same keyring ichi-sign prints nothing but its report
  of the key that verifies.
\<close>

theorem short_candidate_is_reported:
  "check_keyring kurv_sys std_codec toy_crypto (fresh kurv_signed_hello) True True
     (replicate 44 NUL) start
   = Returns (Exit 0, \<lparr>out = \<lparr>written = ''alice.pub'' @ [NL] @ ''hello'', wfaulty = False\<rparr>,
                        err = [''kurv: fread'']\<rparr>)
   \<and> verify_keyring ichi_sys std_codec toy_crypto (keyring_ctx ichi_signed_hello True)
        ichi_signed_hello 5 hello_sig start
      = Returns (0, \<lparr>out = \<lparr>written = ''hello'', wfaulty = False\<rparr>,
                      err = [good_signature_by ''/keys/alice.sign.pub'']\<rparr>)"
proof (intro conjI)
  have path: "(if cstr_at ''/keys'' (strlen ''/keys'' - 1) \<noteq> CHR ''/'' then ''/keys'' @ ''/''
               else ''/keys'') = ''/keys/''"
    by (simp add: cstr_at_def strlen_def)
  have five: "take 5 ichi_signed_hello = ''hello''" "take 5 kurv_signed_hello = ''hello''"
    by (simp_all add: ichi_signed_hello_def kurv_signed_hello_def)
  have ne: "''/keys'' \<noteq> []" by simp
  note c = check_keyring_open[OF sample_sys_facts(2,5) ne sample_sys_facts(6) sample_found(3),
             of toy_crypto True True "replicate 44 NUL" start,
             unfolded path check_keyring_loop_first_match Let_def sample_scans(2,3) option.case]
  show "check_keyring kurv_sys std_codec toy_crypto (fresh kurv_signed_hello) True True
          (replicate 44 NUL) start
        = Returns (Exit 0,
             \<lparr>out = \<lparr>written = ''alice.pub'' @ [NL] @ ''hello'', wfaulty = False\<rparr>,
                err = [''kurv: fread'']\<rparr>)"
    unfolding c by (simp add: fwrite_stdout_def fwrite_def start_def five)
  note v = verify_keyring_first_match[OF sample_sys_facts(3,4,7), of std_codec toy_crypto
             "keyring_ctx ichi_signed_hello True" ichi_signed_hello 5 hello_sig start,
             unfolded sample_scans(1) option.case]
  show "verify_keyring ichi_sys std_codec toy_crypto (keyring_ctx ichi_signed_hello True)
          ichi_signed_hello 5 hello_sig start
        = Returns (0, \<lparr>out = \<lparr>written = ''hello'', wfaulty = False\<rparr>,
                        err = [good_signature_by ''/keys/alice.sign.pub'']\<rparr>)"
    unfolding v by (simp add: XWRITE_ok start_def ERR_def keyring_ctx_def five)
qed

subsection \<open>Keyring not set or not opened\<close>

lemma verify_keyring_unset:
  "getenv sy ''ICHI_SIGN_KEYRING'' = None \<Longrightarrow>
   verify_keyring sy cdc cr ctx msg n sg p = Returns (1, ERR ''$ICHI_SIGN_KEYRING is unset'' p)"
  by (simp add: verify_keyring_def)

lemma verify_keyring_unopenable:
  "getenv sy ''ICHI_SIGN_KEYRING'' = Some kd \<Longrightarrow> opendir sy kd = None \<Longrightarrow>
   verify_keyring sy cdc cr ctx msg n sg p = Undefined"
  by (simp add: verify_keyring_def dirfd_def)

lemma check_keyring_unset:
  "getenv sy ''KURV_KEYRING'' = None \<or> getenv sy ''KURV_KEYRING'' = Some [] \<Longrightarrow>
   check_keyring sy cdc cr fp sid sog bk p = Returns (die ''$KURV_KEYRING is not set.'' p)"
  by (auto simp: check_keyring_def strlen_def)

lemma check_keyring_unopenable:
  assumes "getenv sy ''KURV_KEYRING'' = Some kd" and "kd \<noteq> []" and "opendir sy kd = None"
    and "read_file sy fp p = (Some buf, p1)" and "find_signature cdc buf = Returns (Some (sg, n))"
    and "malloc_ok sy (strlen kd + NAME_MAX + 2)"
  shows "check_keyring sy cdc cr fp sid sog bk p = Returns (errdie ''opendir'' p1)"
  using assms by (simp add: check_keyring_def strlen_def Let_def)

text \<open>
  C6. When the keyring variable is not set both programs fail with a message (the
  two lemmas on the unset variable), and kurv fails with \<^verbatim>\<open>opendir\<close> when the
  directory does not open. ichi-sign does not: \<^verbatim>\<open>verify_keyring\<close> passes the null
  pointer that \<^verbatim>\<open>opendir\<close> returned to \<^verbatim>\<open>dirfd\<close> before any test, so on a keyring that
  cannot be opened its behaviour is undefined, and so is that of \<^verbatim>\<open>verify\<close>.
\<close>

theorem unopened_keyring_is_undefined:
  "verify_keyring broken_keyring_sys std_codec toy_crypto (keyring_ctx ichi_signed_hello False)
     ichi_signed_hello 5 hello_sig start = Undefined
   \<and> verify broken_keyring_sys std_codec toy_crypto (keyring_ctx ichi_signed_hello False) start
       = Undefined
   \<and> check_keyring broken_keyring_sys std_codec toy_crypto (fresh kurv_signed_hello) False False
        (replicate 44 NUL) start
       = Returns (Exit 1, start\<lparr>err := [''opendir'']\<rparr>)"
proof (intro conjI)
  have g: "getenv broken_keyring_sys ''ICHI_SIGN_KEYRING'' = Some ''/nonexistent''"
    "getenv broken_keyring_sys ''KURV_KEYRING'' = Some ''/nonexistent''"
    "opendir broken_keyring_sys ''/nonexistent'' = None"
    "\<forall>n. malloc_ok broken_keyring_sys n"
    by (simp_all add: broken_keyring_sys_def a_sys_def)
  show u: "verify_keyring broken_keyring_sys std_codec toy_crypto
             (keyring_ctx ichi_signed_hello False) ichi_signed_hello 5 hello_sig start = Undefined"
    using verify_keyring_unopenable[OF g(1,3)] .
  show "verify broken_keyring_sys std_codec toy_crypto (keyring_ctx ichi_signed_hello False) start
          = Undefined"
    using verify_joined[OF g(4) _ _ sample_found(1), of "keyring_ctx ichi_signed_hello False"
            toy_crypto start] u
    by (simp add: keyring_ctx_def)
  show "check_keyring broken_keyring_sys std_codec toy_crypto (fresh kurv_signed_hello) False False
          (replicate 44 NUL) start
        = Returns (Exit 1, start\<lparr>err := [''opendir'']\<rparr>)"
    using check_keyring_unopenable[OF g(2) _ g(3) read_file_fresh[OF g(4)] sample_found(3),
            where p = start and cr = toy_crypto and sid = False and sog = False
              and bk = "replicate 44 NUL"] g(4)
    by (simp add: errdie_def kurv_err_def start_def)
qed

subsection \<open>Wiping the buffers of the secret key\<close>

lemma read_key_from_file_wipes:
  assumes "length b64_key0 = 44"
  shows "fst (snd (snd (read_key_from_file sy cdc fn b64_key0))) = replicate 44 NUL"
proof (cases "fopen sy fn")
  case None
  with assms show ?thesis by (simp add: read_key_from_file_def crypto_wipe_def sizes)
next
  case (Some fp)
  obtain rc chunk fp' where u: "utils_read fp B64_KEY_SIZE = (rc, chunk, fp')"
    by (cases "utils_read fp B64_KEY_SIZE") auto
  then have "length chunk \<le> 44"
    by (auto simp: utils_read_def fread_def sizes split: if_splits)
  then have "crypto_wipe (chunk @ drop (length chunk) b64_key0) B64_KEY_SIZE = replicate 44 NUL"
    using assms by (simp add: crypto_wipe_def sizes)
  with Some u show ?thesis by (simp add: read_key_from_file_def Let_def)
qed

lemma find_key_in_file_keeps:
  assumes "find_key_in_file cdc fp b64_key0 p = (Some key, b64_key, fp', p')"
  shows "take 44 b64_key = fst (fread fp 44) \<and> length (fst (fread fp 44)) = 44"
  using assms
  by (auto simp: find_key_in_file_def read_exactly_def Let_def sizes
           split: prod.splits if_splits option.splits)

lemma kurv_sign_wipes_sk:
  "\<exists>k. fst (snd (snd (kurv_sign sy cdc cr fp sk_fp sk0 b64_key0 p))) = crypto_wipe k 32"
  by (auto simp: kurv_sign_def die_def errdie_def Let_def split: prod.splits option.splits)

text \<open>
  C7. \<^verbatim>\<open>read_key_from_file\<close> of ichi-sign wipes the encoded key on every path, and
  \<^verbatim>\<open>sign\<close> of kurv wipes the raw secret key on every path (the lemmas above). But
  \<^verbatim>\<open>find_key_in_file\<close> of kurv wipes its array \<^verbatim>\<open>b64_key\<close> on the failing branch only:
  after a successful load of the sample secret key, and after the run of \<^verbatim>\<open>sign\<close> that
  uses it, the array still holds the 44 characters of the encoded secret key.
\<close>

theorem encoded_secret_key_not_wiped:
  "find_key_in_file std_codec (fresh (sample_b64_sk @ [NL])) (replicate 44 NUL) start
     = (Some sample_sk, sample_b64_sk,
        \<lparr>pending = [NL], eof_ind = False, err_ind = False, faulty = False\<rparr>, start)
   \<and> kurv_sign no_sys std_codec toy_crypto (fresh ''hello'') (fresh (sample_b64_sk @ [NL]))
        (replicate 32 NUL) (replicate 44 NUL) start
     = (Return 0,
        start\<lparr>out := (out start)\<lparr>written := ''hello'' @ SIG_START @ hello_b64_sig @ SIG_END\<rparr>\<rparr>,
        replicate 32 NUL, sample_b64_sk)
   \<and> sample_b64_sk \<noteq> replicate 44 NUL"
proof (intro conjI)
  show "find_key_in_file std_codec (fresh (sample_b64_sk @ [NL])) (replicate 44 NUL) start
     = (Some sample_sk, sample_b64_sk,
        \<lparr>pending = [NL], eof_ind = False, err_ind = False, faulty = False\<rparr>, start)"
    using find_key_in_file_ok[OF sample_sk_facts(1,2,3), of "[NL]" "replicate 44 NUL" start]
    by (simp add: sample_sk_facts)
  have w: "crypto_wipe sample_sk 32 = replicate 32 NUL"
    by (simp add: crypto_wipe_def sample_sk_def)
  have "take 88 hello_b64_sig = hello_b64_sig"
    by (simp add: hello_sig_facts)
  then show "kurv_sign no_sys std_codec toy_crypto (fresh ''hello'') (fresh (sample_b64_sk @ [NL]))
        (replicate 32 NUL) (replicate 44 NUL) start
     = (Return 0,
        start\<lparr>out := (out start)\<lparr>written := ''hello'' @ SIG_START @ hello_b64_sig @ SIG_END\<rparr>\<rparr>,
        replicate 32 NUL, sample_b64_sk)"
    using kurv_sign_ok[OF no_sys_malloc start_ok sample_sk_facts(1,2,3) refl refl,
            of toy_crypto "''hello''" "[NL]" "replicate 32 NUL" "replicate 44 NUL"]
    by (simp add: hello_signed hello_sig_facts sample_sk_facts w start_def)
  show "sample_b64_sk \<noteq> replicate 44 NUL"
    by code_simp
qed

end
